theory Spec2Isabelle
  imports Complex_Main
begin

section \<open>Common Python values and errors\<close>

text \<open>
  The exceptions the modelled code can raise. Every \<^verbatim>\<open>raise\<close>, failed \<^verbatim>\<open>assert\<close>
  and failing built-in operation of the source is a branch returning \<open>Inl\<close>.
\<close>

datatype error =
    TypeError
  | ValueError
  | KeyError
  | ZeroDivisionError
  | AssertionError
  | AttributeError
  | Exception

section \<open>CooldownTracker (src/routine/cooldown\_tracker.py)\<close>

text \<open>
  A Python \<^verbatim>\<open>dict\<close> iterated in insertion order is an association list; the clock
  \<^verbatim>\<open>time.time()\<close> is read once per call and passed in as \<open>now\<close>. Times and cooldowns
  are Python floats; only their order and differences matter here, and they are modelled
  as reals.
\<close>

record tracker =
  cooldowns :: "(string \<times> real) list"
  last_used :: "string \<rightharpoonup> real"

text \<open>\<^verbatim>\<open>__init__\<close>: copy the table, \<^verbatim>\<open>last_used = {k: 0.0 for k in self.cooldowns}\<close>.\<close>

definition CooldownTracker :: "(string \<times> real) list \<Rightarrow> tracker" where
  "CooldownTracker cds =
     \<lparr>cooldowns = cds, last_used = map_of (map (\<lambda>kv. (fst kv, 0)) cds)\<rparr>"

text \<open>\<^verbatim>\<open>record_used\<close>: \<^verbatim>\<open>self.last_used[key] = time.time()\<close>.\<close>

definition record_used :: "tracker \<Rightarrow> string \<Rightarrow> real \<Rightarrow> tracker" where
  "record_used t key now = t\<lparr>last_used := (last_used t)(key \<mapsto> now)\<rparr>"

text \<open>
  The loop of \<^verbatim>\<open>get_available\<close>. The \<^verbatim>\<open>or\<close> short-circuits, so \<^verbatim>\<open>self.last_used[key]\<close>
  is read (and can raise KeyError) only when \<^verbatim>\<open>cd > 0\<close>.
\<close>

fun available_loop ::
  "(string \<rightharpoonup> real) \<Rightarrow> real \<Rightarrow> (string \<times> real) list \<Rightarrow> string list \<Rightarrow> error + string list"
where
  "available_loop lu now [] out = Inr out"
| "available_loop lu now ((key, cd) # rest) out =
     (if cd \<le> 0 then available_loop lu now rest (out @ [key])
      else (case lu key of
              None \<Rightarrow> Inl KeyError
            | Some t \<Rightarrow>
                if now - t \<ge> cd then available_loop lu now rest (out @ [key])
                else available_loop lu now rest out))"

definition get_available :: "tracker \<Rightarrow> real \<Rightarrow> error + string list" where
  "get_available t now = available_loop (last_used t) now (cooldowns t) []"

text \<open>
  The state a tracker is in after construction from a dict and any number of
  \<^verbatim>\<open>record_used\<close> calls: the keys of the table are distinct (it is a dict) and each of
  them has a \<^verbatim>\<open>last_used\<close> entry.
\<close>

definition tracker_ok :: "tracker \<Rightarrow> bool" where
  "tracker_ok t \<longleftrightarrow>
     distinct (map fst (cooldowns t)) \<and> list_all (\<lambda>kv. last_used t (fst kv) \<noteq> None) (cooldowns t)"

section \<open>Python values (src/routine/components.py, \<^verbatim>\<open>Component.PRIMITIVES\<close>)\<close>

text \<open>
  The values a constructor argument can hold. \<open>VObj\<close> stands for any object that is not
  of a primitive type (a list, a dict, another component), identified by an address.
\<close>

datatype pyval =
    VInt int
  | VStr string
  | VBool bool
  | VFloat real
  | VNone
  | VObj nat

text \<open>\<^verbatim>\<open>type(v) in {int, str, bool, float}\<close>\<close>

fun is_primitive :: "pyval \<Rightarrow> bool" where
  "is_primitive (VInt _) = True"
| "is_primitive (VStr _) = True"
| "is_primitive (VBool _) = True"
| "is_primitive (VFloat _) = True"
| "is_primitive VNone = False"
| "is_primitive (VObj _) = False"

text \<open>Python truthiness, as used by \<^verbatim>\<open>if settings.skill_rotation_mode\<close>.\<close>

fun truthy :: "pyval \<Rightarrow> bool" where
  "truthy (VInt i) = (i \<noteq> 0)"
| "truthy (VStr s) = (s \<noteq> [])"
| "truthy (VBool b) = b"
| "truthy (VFloat r) = (r \<noteq> 0)"
| "truthy VNone = False"
| "truthy (VObj _) = True"

text \<open>Decimal rendering of integers, as \<^verbatim>\<open>str\<close> and f-strings print them.\<close>

fun str_of_nat :: "nat \<Rightarrow> string" where
  "str_of_nat n =
     (if n < 10 then [''0123456789'' ! n]
      else str_of_nat (n div 10) @ [''0123456789'' ! (n mod 10)])"

declare str_of_nat.simps [simp del]

definition str_of_int :: "int \<Rightarrow> string" where
  "str_of_int i = (if i < 0 then CHR ''-'' # str_of_nat (nat (- i)) else str_of_nat (nat i))"

text \<open>
  \<^verbatim>\<open>str(v)\<close> and \<^verbatim>\<open>f'{v}'\<close>. The printing of a float and of an arbitrary object are
  Python built-ins and are taken as parameters.
\<close>

fun py_str :: "(real \<Rightarrow> string) \<Rightarrow> (nat \<Rightarrow> string) \<Rightarrow> pyval \<Rightarrow> string" where
  "py_str rf ro (VInt i) = str_of_int i"
| "py_str rf ro (VStr s) = s"
| "py_str rf ro (VBool b) = (if b then ''True'' else ''False'')"
| "py_str rf ro (VFloat r) = rf r"
| "py_str rf ro VNone = ''None''"
| "py_str rf ro (VObj n) = ro n"

text \<open>\<^verbatim>\<open>float(v)\<close>; parsing a string is a Python built-in, taken as a parameter.\<close>

fun py_float :: "(string \<Rightarrow> real option) \<Rightarrow> pyval \<Rightarrow> error + real" where
  "py_float ps (VInt i) = Inr (real_of_int i)"
| "py_float ps (VStr s) = (case ps s of None \<Rightarrow> Inl ValueError | Some r \<Rightarrow> Inr r)"
| "py_float ps (VBool b) = Inr (if b then 1 else 0)"
| "py_float ps (VFloat r) = Inr r"
| "py_float ps VNone = Inl TypeError"
| "py_float ps (VObj _) = Inl TypeError"

text \<open>\<^verbatim>\<open>sep.join(arr)\<close>\<close>

fun py_join :: "string \<Rightarrow> string list \<Rightarrow> string" where
  "py_join sep [] = []"
| "py_join sep [a] = a"
| "py_join sep (a # b # rest) = a @ sep @ py_join sep (b # rest)"

section \<open>Calling a constructor: binding arguments to parameters\<close>

text \<open>
  A call \<^verbatim>\<open>cls(*args, **kwargs)\<close> binds positional arguments to the leading parameters
  and keyword arguments by name; a surplus positional argument, an unknown or doubly
  given keyword, or a parameter left without value and default raises TypeError. The
  result lists the parameters in definition order: it is what \<^verbatim>\<open>locals()\<close> holds at the
  top of \<^verbatim>\<open>__init__\<close>, without \<^verbatim>\<open>self\<close> and \<^verbatim>\<open>__class__\<close>, which
  \<^verbatim>\<open>Component.__init__\<close> pops.
\<close>

fun bind_params ::
  "(string \<times> pyval option) list \<Rightarrow> pyval list \<Rightarrow> (string \<times> pyval) list
     \<Rightarrow> error + (string \<times> pyval) list"
where
  "bind_params [] [] kw = (if kw = [] then Inr [] else Inl TypeError)"
| "bind_params [] (a # as) kw = Inl TypeError"
| "bind_params ((p, d) # ps) (a # as) kw =
     (if map_of kw p \<noteq> None then Inl TypeError
      else (case bind_params ps as kw of
              Inl e \<Rightarrow> Inl e
            | Inr b \<Rightarrow> Inr ((p, a) # b)))"
| "bind_params ((p, d) # ps) [] kw =
     (case map_of kw p of
        Some v \<Rightarrow>
          (case bind_params ps [] (filter (\<lambda>kv. fst kv \<noteq> p) kw) of
             Inl e \<Rightarrow> Inl e
           | Inr b \<Rightarrow> Inr ((p, v) # b))
      | None \<Rightarrow>
          (case d of
             None \<Rightarrow> Inl TypeError
           | Some dv \<Rightarrow>
               (case bind_params ps [] kw of
                  Inl e \<Rightarrow> Inl e
                | Inr b \<Rightarrow> Inr ((p, dv) # b))))"

text \<open>Reading a bound parameter (every parameter is bound once binding succeeded).\<close>

definition arg :: "(string \<times> pyval) list \<Rightarrow> string \<Rightarrow> pyval" where
  "arg b n = (case map_of b n of Some v \<Rightarrow> v | None \<Rightarrow> VNone)"

section \<open>Shared state (\<^verbatim>\<open>config\<close>, \<^verbatim>\<open>settings\<close>) and the environment\<close>

text \<open>
  The process-wide state the routine code reads and writes: \<^verbatim>\<open>config.enabled\<close>,
  \<^verbatim>\<open>config.listener.enabled\<close>, \<^verbatim>\<open>config.routine.index\<close>, \<^verbatim>\<open>config.routine.labels\<close>
  (label name to the address of its Label object), the \<^verbatim>\<open>index\<close> attribute of each
  Label object by address, the attributes of the \<^verbatim>\<open>settings\<close> module, and the lines
  printed so far.
\<close>

record world =
  enabled :: bool
  listener_enabled :: bool
  routine_index :: "int option"
  routine_labels :: "string \<rightharpoonup> nat"
  label_index :: "nat \<Rightarrow> int option"
  settings :: "string \<rightharpoonup> pyval"
  stdout :: "string list"

text \<open>
  Commands of the active command book that a Point runs. Their classes live in the
  command book, outside this code; running one is an arbitrary fallible change of the
  shared state.
\<close>

datatype action =
    Move real real
  | Adjust real real
  | SkillRotation pyval
  | Command nat

text \<open>
  What the modelled code takes from outside: Python built-ins on floats and objects, the
  validators of \<^verbatim>\<open>src/common/settings.py\<close> (used by the constructors, not among the
  sources) and the execution of command-book commands.
\<close>

record env =
  float_of_str :: "string \<Rightarrow> real option"
  repr_float :: "real \<Rightarrow> string"
  str_obj :: "nat \<Rightarrow> string"
  validate_nonnegative_int :: "pyval \<Rightarrow> error + int"
  validate_boolean :: "pyval \<Rightarrow> error + bool"
  SETTING_VALIDATORS :: "string \<rightharpoonup> (pyval \<Rightarrow> error + pyval)"
  exec_command :: "action \<Rightarrow> world \<Rightarrow> error + world"

text \<open>
  Modelled from the spec: \<^verbatim>\<open>run_if_enabled\<close> (\<^verbatim>\<open>src/common/decorators.py\<close> is not
  among the sources). The spec: the decorated operation is "gated by the global enabled
  flag (if disabled, neither the action nor the counter increment occurs)".
\<close>

definition run_if_enabled ::
  "('s \<Rightarrow> world \<Rightarrow> error + 's \<times> world) \<Rightarrow> 's \<Rightarrow> world \<Rightarrow> error + 's \<times> world"
where
  "run_if_enabled f s w = (if enabled w then f s w else Inr (s, w))"

section \<open>Routine components (src/routine/components.py)\<close>

text \<open>
  \<^verbatim>\<open>Component\<close>: the class attribute \<^verbatim>\<open>id\<close> and the instance attribute \<^verbatim>\<open>kwargs\<close>, the
  constructor arguments in definition order. Subclasses extend it with their own
  attributes. An attribute that \<^verbatim>\<open>__init__\<close> has not set yet is shown by a placeholder,
  except \<^verbatim>\<open>commands\<close>, whose absence \<^verbatim>\<open>hasattr\<close> tests.
\<close>

record component =
  component_id :: string
  kwargs :: "(string \<times> pyval) list"

record point = component +
  x :: real
  y :: real
  location :: "real \<times> real"
  frequency :: int
  counter :: int
  adjust :: bool
  commands :: "nat list option"

record label = component +
  label :: string
  links :: "nat set"
  index :: "int option"

record jump = component +
  label :: string
  frequency :: int
  counter :: int
  link :: "nat option"

record setting = component +
  key :: string
  setting_value :: pyval

text \<open>Objects fresh from \<^verbatim>\<open>__new__\<close>, before \<^verbatim>\<open>__init__\<close> ran.\<close>

definition fresh_point :: point where
  "fresh_point = \<lparr>component_id = ''*'', kwargs = [], x = 0, y = 0, location = (0, 0),
     point.frequency = 0, point.counter = 0, adjust = False, commands = None\<rparr>"

definition fresh_label :: label where
  "fresh_label = \<lparr>component_id = ''@'', kwargs = [], label.label = [], links = {}, index = None\<rparr>"

definition fresh_jump :: jump where
  "fresh_jump = \<lparr>component_id = ''>'', kwargs = [], jump.label = [], jump.frequency = 0,
     jump.counter = 0, link = None\<rparr>"

definition fresh_setting :: setting where
  "fresh_setting = \<lparr>component_id = ''$'', kwargs = [], key = [], setting_value = VNone\<rparr>"

text \<open>
  The constructors. \<^verbatim>\<open>__init__\<close> assigns attribute after attribute, so an exception
  leaves the object with the assignments made before it: the result is the object as it
  stands and the exception raised, if any.
\<close>

definition Point_init ::
  "env \<Rightarrow> world \<Rightarrow> point \<Rightarrow> pyval list \<Rightarrow> (string \<times> pyval) list \<Rightarrow> point \<times> error option"
where
  "Point_init ev w self as kw =
     (case bind_params [(''x'', None), (''y'', None), (''frequency'', Some (VInt 1)),
                        (''skip'', Some (VStr ''False'')), (''adjust'', Some (VStr ''False''))] as kw of
        Inl e \<Rightarrow> (self, Some e)
      | Inr b \<Rightarrow>
          let s1 = self\<lparr>kwargs := b\<rparr> in
          (case py_float (float_of_str ev) (arg b ''x'') of
             Inl e \<Rightarrow> (s1, Some e)
           | Inr xv \<Rightarrow>
               let s2 = s1\<lparr>x := xv\<rparr> in
               (case py_float (float_of_str ev) (arg b ''y'') of
                  Inl e \<Rightarrow> (s2, Some e)
                | Inr yv \<Rightarrow>
                    let s3 = s2\<lparr>y := yv, location := (xv, yv)\<rparr> in
                    (case validate_nonnegative_int ev (arg b ''frequency'') of
                       Inl e \<Rightarrow> (s3, Some e)
                     | Inr f \<Rightarrow>
                         let s4 = s3\<lparr>point.frequency := f\<rparr> in
                         (case validate_boolean ev (arg b ''skip'') of
                            Inl e \<Rightarrow> (s4, Some e)
                          | Inr sk \<Rightarrow>
                              let s5 = s4\<lparr>point.counter := (if sk then 1 else 0)\<rparr> in
                              (case validate_boolean ev (arg b ''adjust'') of
                                 Inl e \<Rightarrow> (s5, Some e)
                               | Inr a \<Rightarrow>
                                   let s6 = s5\<lparr>adjust := a\<rparr> in
                                   (if commands s6 = None then s6\<lparr>commands := Some []\<rparr> else s6,
                                    None)))))))"

definition Label_init ::
  "env \<Rightarrow> world \<Rightarrow> label \<Rightarrow> pyval list \<Rightarrow> (string \<times> pyval) list \<Rightarrow> label \<times> error option"
where
  "Label_init ev w self as kw =
     (case bind_params [(''label'', None)] as kw of
        Inl e \<Rightarrow> (self, Some e)
      | Inr b \<Rightarrow>
          let s1 = self\<lparr>kwargs := b\<rparr>;
              s2 = s1\<lparr>label.label := py_str (repr_float ev) (str_obj ev) (arg b ''label'')\<rparr>
          in if routine_labels w (label.label s2) \<noteq> None then (s2, Some ValueError)
             else (s2\<lparr>links := {}, index := None\<rparr>, None))"

definition Jump_init ::
  "env \<Rightarrow> world \<Rightarrow> jump \<Rightarrow> pyval list \<Rightarrow> (string \<times> pyval) list \<Rightarrow> jump \<times> error option"
where
  "Jump_init ev w self as kw =
     (case bind_params [(''label'', None), (''frequency'', Some (VInt 1)),
                        (''skip'', Some (VStr ''False''))] as kw of
        Inl e \<Rightarrow> (self, Some e)
      | Inr b \<Rightarrow>
          let s1 = self\<lparr>kwargs := b\<rparr>;
              s2 = s1\<lparr>jump.label := py_str (repr_float ev) (str_obj ev) (arg b ''label'')\<rparr>
          in (case validate_nonnegative_int ev (arg b ''frequency'') of
                Inl e \<Rightarrow> (s2, Some e)
              | Inr f \<Rightarrow>
                  let s3 = s2\<lparr>jump.frequency := f\<rparr> in
                  (case validate_boolean ev (arg b ''skip'') of
                     Inl e \<Rightarrow> (s3, Some e)
                   | Inr sk \<Rightarrow>
                       (s3\<lparr>jump.counter := (if sk then 1 else 0), link := None\<rparr>, None))))"

definition Setting_init ::
  "env \<Rightarrow> world \<Rightarrow> setting \<Rightarrow> pyval list \<Rightarrow> (string \<times> pyval) list \<Rightarrow> setting \<times> error option"
where
  "Setting_init ev w self as kw =
     (case bind_params [(''target'', None), (''value'', None)] as kw of
        Inl e \<Rightarrow> (self, Some e)
      | Inr b \<Rightarrow>
          let s1 = self\<lparr>kwargs := b\<rparr>;
              s2 = s1\<lparr>key := py_str (repr_float ev) (str_obj ev) (arg b ''target'')\<rparr>
          in (case SETTING_VALIDATORS ev (key s2) of
                None \<Rightarrow> (s2, Some ValueError)
              | Some validator \<Rightarrow>
                  (case validator (arg b ''value'') of
                     Inl e \<Rightarrow> (s2, Some e)
                   | Inr v \<Rightarrow> (s2\<lparr>setting_value := v\<rparr>, None))))"

text \<open>
  \<^verbatim>\<open>Component.update\<close>, for a class given by its \<^verbatim>\<open>__init__\<close> and a fresh object:
  \<^verbatim>\<open>self.__class__(*args, **kwargs)\<close> builds and initialises a throwaway instance; only
  if that returns, \<^verbatim>\<open>self.__init__(*args, **kwargs)\<close> runs on the receiver.
\<close>

definition update ::
  "('s \<Rightarrow> pyval list \<Rightarrow> (string \<times> pyval) list \<Rightarrow> 's \<times> error option) \<Rightarrow> 's
     \<Rightarrow> 's \<Rightarrow> pyval list \<Rightarrow> (string \<times> pyval) list \<Rightarrow> 's \<times> error option"
where
  "update init fresh self as kw =
     (case init fresh as kw of
        (_, Some e) \<Rightarrow> (self, Some e)
      | (_, None) \<Rightarrow> init self as kw)"

definition Point_update where "Point_update ev w = update (Point_init ev w) fresh_point"
definition Label_update where "Label_update ev w = update (Label_init ev w) fresh_label"
definition Jump_update where "Jump_update ev w = update (Jump_init ev w) fresh_jump"
definition Setting_update where "Setting_update ev w = update (Setting_init ev w) fresh_setting"

text \<open>
  \<^verbatim>\<open>Component.encode\<close>: the loop appends \<^verbatim>\<open>key=value\<close> for every entry of \<^verbatim>\<open>kwargs\<close>
  whose key is not \<^verbatim>\<open>id\<close> and whose value has a primitive type, then joins the array,
  which starts with the class's \<^verbatim>\<open>id\<close>, by \<^verbatim>\<open>', '\<close>.
\<close>

fun encode_loop :: "env \<Rightarrow> (string \<times> pyval) list \<Rightarrow> string list \<Rightarrow> string list" where
  "encode_loop ev [] arr = arr"
| "encode_loop ev ((k, v) # rest) arr =
     (if k \<noteq> ''id'' \<and> is_primitive v
      then encode_loop ev rest (arr @ [k @ ''='' @ py_str (repr_float ev) (str_obj ev) v])
      else encode_loop ev rest arr)"

definition encode :: "env \<Rightarrow> 'a component_scheme \<Rightarrow> string" where
  "encode ev c = py_join '', '' (encode_loop ev (kwargs c) [component_id c])"

text \<open>\<^verbatim>\<open>Label.encode\<close>: \<^verbatim>\<open>'\n' + super().encode()\<close>\<close>

definition Label_encode :: "env \<Rightarrow> label \<Rightarrow> string" where
  "Label_encode ev l = CHR 0x0A # encode ev l"

text \<open>
  The rendering the spec describes, for comparison: \<^verbatim>\<open><symbol> <key=value>, ...\<close>, the
  symbol, a blank, then the \<^verbatim>\<open>key=value\<close> items separated by \<^verbatim>\<open>', '\<close>.
\<close>

definition spec_encode :: "env \<Rightarrow> 'a component_scheme \<Rightarrow> string" where
  "spec_encode ev c =
     component_id c @ '' '' @
     py_join '', '' (map (\<lambda>kv. fst kv @ ''='' @ py_str (repr_float ev) (str_obj ev) (snd kv))
                       (filter (\<lambda>kv. fst kv \<noteq> ''id'' \<and> is_primitive (snd kv)) (kwargs c)))"

section \<open>Executing routine components\<close>

text \<open>
  \<^verbatim>\<open>Point._increment_counter\<close> and \<^verbatim>\<open>Jump._increment_counter\<close>, both decorated with
  \<^verbatim>\<open>run_if_enabled\<close>: \<^verbatim>\<open>self.counter = (self.counter + 1) % self.frequency\<close>. Python's
  \<^verbatim>\<open>%\<close> on integers is the floored remainder, as \<open>mod\<close> on \<open>int\<close>, and raises
  ZeroDivisionError for a zero divisor.
\<close>

definition Point_increment_counter_body :: "point \<Rightarrow> world \<Rightarrow> error + point \<times> world" where
  "Point_increment_counter_body p w =
     (if point.frequency p = 0 then Inl ZeroDivisionError
      else Inr (p\<lparr>point.counter := (point.counter p + 1) mod point.frequency p\<rparr>, w))"

definition Point_increment_counter :: "point \<Rightarrow> world \<Rightarrow> error + point \<times> world" where
  "Point_increment_counter = run_if_enabled Point_increment_counter_body"

definition Jump_increment_counter_body :: "jump \<Rightarrow> world \<Rightarrow> error + jump \<times> world" where
  "Jump_increment_counter_body j w =
     (if jump.frequency j = 0 then Inl ZeroDivisionError
      else Inr (j\<lparr>jump.counter := (jump.counter j + 1) mod jump.frequency j\<rparr>, w))"

definition Jump_increment_counter :: "jump \<Rightarrow> world \<Rightarrow> error + jump \<times> world" where
  "Jump_increment_counter = run_if_enabled Jump_increment_counter_body"

text \<open>\<^verbatim>\<open>for command in self.commands: command.execute()\<close>\<close>

fun run_commands :: "env \<Rightarrow> nat list \<Rightarrow> world \<Rightarrow> error + world" where
  "run_commands ev [] w = Inr w"
| "run_commands ev (c # cs) w =
     (case exec_command ev (Command c) w of
        Inl e \<Rightarrow> Inl e
      | Inr w' \<Rightarrow> run_commands ev cs w')"

text \<open>\<^verbatim>\<open>Point.main\<close>\<close>

definition Point_main :: "env \<Rightarrow> point \<Rightarrow> world \<Rightarrow> error + point \<times> world" where
  "Point_main ev p w =
     (if point.counter p = 0 then
        (case exec_command ev (Move (fst (location p)) (snd (location p))) w of
           Inl e \<Rightarrow> Inl e
         | Inr w1 \<Rightarrow>
             (case (if adjust p
                    then exec_command ev (Adjust (fst (location p)) (snd (location p))) w1
                    else Inr w1) of
                Inl e \<Rightarrow> Inl e
              | Inr w2 \<Rightarrow>
                  (case settings w2 ''skill_rotation_mode'' of
                     None \<Rightarrow> Inl AttributeError
                   | Some m \<Rightarrow>
                       (case (if truthy m
                              then (case settings w2 ''skill_rotation_duration'' of
                                      None \<Rightarrow> Inl AttributeError
                                    | Some d \<Rightarrow> exec_command ev (SkillRotation d) w2)
                              else (case commands p of
                                      None \<Rightarrow> Inl AttributeError
                                    | Some cs \<Rightarrow> run_commands ev cs w2)) of
                          Inl e \<Rightarrow> Inl e
                        | Inr w3 \<Rightarrow> Point_increment_counter p w3))))
      else Point_increment_counter p w)"

text \<open>The line \<^verbatim>\<open>Jump.main\<close> prints when its label is not bound.\<close>

definition missing_label_message :: "string \<Rightarrow> string" where
  "missing_label_message l = CHR 0x0A # ''[!] Label '' @ [CHR 0x27] @ l @ [CHR 0x27] @ '' does not exist.''"

text \<open>\<^verbatim>\<open>Jump.main\<close>: the counter is incremented in the \<^verbatim>\<open>else\<close> branch only.\<close>

definition Jump_main :: "jump \<Rightarrow> world \<Rightarrow> error + jump \<times> world" where
  "Jump_main j w =
     (case link j of
        None \<Rightarrow> Inr (j, w\<lparr>stdout := stdout w @ [missing_label_message (jump.label j)]\<rparr>)
      | Some a \<Rightarrow>
          Jump_increment_counter j
            (if jump.counter j = 0 then w\<lparr>routine_index := label_index w a\<rparr> else w))"

text \<open>\<^verbatim>\<open>Component.main\<close> (inherited by Label): \<^verbatim>\<open>pass\<close>.\<close>

definition Label_main :: "label \<Rightarrow> world \<Rightarrow> error + label \<times> world" where
  "Label_main l w = Inr (l, w)"

text \<open>\<^verbatim>\<open>Setting.main\<close>: \<^verbatim>\<open>setattr(settings, self.key, self.value)\<close>\<close>

definition Setting_main :: "setting \<Rightarrow> world \<Rightarrow> error + setting \<times> world" where
  "Setting_main s w = Inr (s, w\<lparr>settings := (settings w)(key s \<mapsto> setting_value s)\<rparr>)"

text \<open>
  The elements of a routine (\<^verbatim>\<open>SYMBOLS\<close>) and \<^verbatim>\<open>Component.execute\<close>, which is
  \<^verbatim>\<open>self.main()\<close> under \<^verbatim>\<open>run_if_enabled\<close>, dispatched on the element's class.
\<close>

datatype element =
    PointE point
  | LabelE label
  | JumpE jump
  | SettingE setting

definition wrap :: "('a \<Rightarrow> element) \<Rightarrow> error + 'a \<times> world \<Rightarrow> error + element \<times> world" where
  "wrap c r = (case r of Inl e \<Rightarrow> Inl e | Inr (a, w) \<Rightarrow> Inr (c a, w))"

fun main :: "env \<Rightarrow> element \<Rightarrow> world \<Rightarrow> error + element \<times> world" where
  "main ev (PointE p) w = wrap PointE (Point_main ev p w)"
| "main ev (LabelE l) w = wrap LabelE (Label_main l w)"
| "main ev (JumpE j) w = wrap JumpE (Jump_main j w)"
| "main ev (SettingE s) w = wrap SettingE (Setting_main s w)"

definition execute :: "env \<Rightarrow> element \<Rightarrow> world \<Rightarrow> error + element \<times> world" where
  "execute ev = run_if_enabled (main ev)"

text \<open>
  Dynamic dispatch of \<^verbatim>\<open>self.__class__(*args, **kwargs)\<close> and of
  \<^verbatim>\<open>element.update(*args, **kwargs)\<close> on the element's class.
\<close>

definition tag :: "('a \<Rightarrow> element) \<Rightarrow> 'a \<times> error option \<Rightarrow> element \<times> error option" where
  "tag c r = (c (fst r), snd r)"

fun construct ::
  "env \<Rightarrow> world \<Rightarrow> element \<Rightarrow> pyval list \<Rightarrow> (string \<times> pyval) list \<Rightarrow> element \<times> error option"
where
  "construct ev w (PointE _) as kw = tag PointE (Point_init ev w fresh_point as kw)"
| "construct ev w (LabelE _) as kw = tag LabelE (Label_init ev w fresh_label as kw)"
| "construct ev w (JumpE _) as kw = tag JumpE (Jump_init ev w fresh_jump as kw)"
| "construct ev w (SettingE _) as kw = tag SettingE (Setting_init ev w fresh_setting as kw)"

fun update_element ::
  "env \<Rightarrow> world \<Rightarrow> element \<Rightarrow> pyval list \<Rightarrow> (string \<times> pyval) list \<Rightarrow> element \<times> error option"
where
  "update_element ev w (PointE p) as kw = tag PointE (Point_update ev w p as kw)"
| "update_element ev w (LabelE l) as kw = tag LabelE (Label_update ev w l as kw)"
| "update_element ev w (JumpE j) as kw = tag JumpE (Jump_update ev w j as kw)"
| "update_element ev w (SettingE s) as kw = tag SettingE (Setting_update ev w s as kw)"

section \<open>SkillRotation: the main-attack hold (src/routine/components.py)\<close>

text \<open>
  Durations are Python floats, IEEE doubles. A double is modelled by the real number it
  is. Every arithmetic operation rounds its exact result to a double: the rounding is
  the parameter \<open>fl\<close>. A decimal literal stands for the double nearest to it, so
  \<^verbatim>\<open>0.2\<close> is \<open>fl 0.2\<close>; \<^verbatim>\<open>1.0\<close>, \<^verbatim>\<open>3.0\<close> and \<^verbatim>\<open>5.0\<close> are doubles as they
  stand. Comparisons, \<^verbatim>\<open>min\<close> and \<^verbatim>\<open>max\<close> are exact.
\<close>

text \<open>
  \<^verbatim>\<open>utils.rand_float(start, end)\<close>: \<^verbatim>\<open>assert start < end\<close>, then
  \<^verbatim>\<open>(end - start) * random() + start\<close>, each of the three operations rounded. The draw
  \<^verbatim>\<open>random()\<close>, a double in \<open>[0, 1)\<close>, is the argument \<open>u\<close>.
\<close>

definition rand_float :: "(real \<Rightarrow> real) \<Rightarrow> real \<Rightarrow> real \<Rightarrow> real \<Rightarrow> error + real" where
  "rand_float fl start endv u =
     (if start < endv then Inr (fl (fl (fl (endv - start) * u) + start))
      else Inl AssertionError)"

text \<open>
  The hold duration \<^verbatim>\<open>SkillRotation._main_attack_phase\<close> draws for a given \<^verbatim>\<open>max_sec\<close>;
  \<open>None\<close> when it returns at once (\<^verbatim>\<open>max_sec <= 0.05\<close>) without pressing a key.
\<close>

definition main_attack_phase :: "(real \<Rightarrow> real) \<Rightarrow> real \<Rightarrow> real \<Rightarrow> error + real option" where
  "main_attack_phase fl max_sec u =
     (if max_sec \<le> fl 0.05 then Inr None
      else (case (if max_sec \<ge> 1 then rand_float fl 1 (min 3 max_sec) u
                  else if max_sec > fl 0.2 then rand_float fl (fl 0.2) max_sec u
                  else rand_float fl (fl 0.05) max_sec u) of
              Inl e \<Rightarrow> Inl e
            | Inr duration \<Rightarrow> Inr (Some duration)))"

text \<open>
  The call in the loop of \<^verbatim>\<open>SkillRotation.main\<close>, where \<^verbatim>\<open>remaining = end - time.time()\<close>:
  \<^verbatim>\<open>self._main_attack_phase(main_key, max_sec=min(5.0, max(0.2, remaining)))\<close>.
\<close>

definition attack_hold :: "(real \<Rightarrow> real) \<Rightarrow> real \<Rightarrow> real \<Rightarrow> error + real option" where
  "attack_hold fl remaining u = main_attack_phase fl (min 5 (max (fl 0.2) remaining)) u"

text \<open>
  What the properties below use of rounding to the nearest double: it is monotone, it
  leaves a double as it is, 0 and 1 are doubles, and the doubles of the literals
  \<^verbatim>\<open>0.05\<close>, \<^verbatim>\<open>0.2\<close> and \<^verbatim>\<open>0.3\<close> are in this order below 1.
\<close>

definition rounding :: "(real \<Rightarrow> real) \<Rightarrow> bool" where
  "rounding fl \<longleftrightarrow>
     (\<forall>a b. a \<le> b \<longrightarrow> fl a \<le> fl b) \<and> (\<forall>a. fl (fl a) = fl a) \<and> fl 0 = 0 \<and> fl 1 = 1 \<and>
     fl 0.05 < fl 0.2 \<and> fl 0.2 < fl 0.3 \<and> fl 0.3 < 1"

text \<open>
  Subtracting \<open>start\<close> from \<open>endv\<close> and adding it back, both rounded, does not exceed
  \<open>endv\<close>. It bounds what a draw can reach; it holds in particular where the
  subtraction is exact.
\<close>

definition adds_back :: "(real \<Rightarrow> real) \<Rightarrow> real \<Rightarrow> real \<Rightarrow> bool" where
  "adds_back fl start endv \<longleftrightarrow> fl (fl (endv - start) + start) \<le> endv"

section \<open>Notifier.\_alert (src/modules/notifier.py)\<close>

text \<open>
  The state of \<^verbatim>\<open>pygame.mixer.music\<close> as \<^verbatim>\<open>_alert\<close> drives it: the file loaded (its path
  components), the volume, whether it plays and the \<^verbatim>\<open>loops\<close> argument of \<^verbatim>\<open>play\<close>.
\<close>

record mixer =
  loaded :: "string list option"
  volume :: real
  playing :: bool
  loops :: int

text \<open>\<^verbatim>\<open>get_alert_path\<close>: \<^verbatim>\<open>os.path.join('assets', 'alerts', f'{name}.mp3')\<close>\<close>

definition get_alert_path :: "string \<Rightarrow> string list" where
  "get_alert_path name = [''assets'', ''alerts'', name @ ''.mp3'']"

text \<open>
  The first five statements of \<^verbatim>\<open>_alert\<close>: both flags are cleared and the alert starts
  looping. This is the state in which the notifier thread then polls the keyboard.
\<close>

definition alert_start :: "string \<Rightarrow> real \<Rightarrow> mixer \<times> world \<Rightarrow> mixer \<times> world" where
  "alert_start name vol s =
     (fst s\<lparr>loaded := Some (get_alert_path name), volume := vol, playing := True, loops := - 1\<rparr>,
      snd s\<lparr>enabled := False, listener_enabled := False\<rparr>)"

text \<open>
  \<^verbatim>\<open>while not kb.is_pressed(...): time.sleep(0.1)\<close>, over the successive answers of
  \<^verbatim>\<open>kb.is_pressed\<close>: the number of sleeps before the key is seen pressed, or \<open>None\<close> when
  it is not pressed in any of the polls, in which case the loop has not ended.
\<close>

fun wait_for_key :: "bool list \<Rightarrow> nat option" where
  "wait_for_key [] = None"
| "wait_for_key (pressed # polls) =
     (if pressed then Some 0 else map_option Suc (wait_for_key polls))"

text \<open>
  \<^verbatim>\<open>_alert\<close>: \<open>None\<close> while it is still blocked in the loop; when it returns, the alert
  is stopped and \<^verbatim>\<open>config.listener.enabled\<close> is set again. \<^verbatim>\<open>config.enabled\<close> is not
  assigned after the loop.
\<close>

definition alert :: "string \<Rightarrow> real \<Rightarrow> bool list \<Rightarrow> mixer \<times> world \<Rightarrow> (mixer \<times> world) option" where
  "alert name vol polls s =
     (let s1 = alert_start name vol s in
      case wait_for_key polls of
        None \<Rightarrow> None
      | Some n \<Rightarrow> Some (fst s1\<lparr>playing := False\<rparr>, snd s1\<lparr>listener_enabled := True\<rparr>))"

section \<open>Bot.\_solve\_rune (src/modules/bot.py)\<close>

text \<open>
  What \<^verbatim>\<open>_solve_rune\<close> does to the outside: key presses, the right click on the buff
  icon, the saved evidence frame, the cash-shop recovery (\<^verbatim>\<open>utils.enter_cash_shop\<close>,
  \<^verbatim>\<open>utils.exit_cash_shop\<close>) and the two \<^verbatim>\<open>taskkill\<close> calls, of the game and of the
  bot's own process. Diagnostic prints and sleeps are left out.
\<close>

datatype event =
    Press string
  | Click int int
  | SaveFailedDetection
  | EnterCashShop
  | ExitCashShop
  | TaskKill string
  | TaskKillSelf

text \<open>
  The Bot's attributes the function uses, the module-level counter \<^verbatim>\<open>attempts\<close>, the
  key bound to \<^verbatim>\<open>Interact\<close> and the events issued so far.
\<close>

record bot =
  rune_active :: bool
  rune_pos :: "real \<times> real"
  attempts :: int
  interact_key :: string
  events :: "event list"

text \<open>
  What the remote solver does with a request (\<^verbatim>\<open>ArrowPredictionClient\<close> in
  src/detection/detection.py): it answers with status 200 and a list of symbols, or the
  request fails (another status, for which the client raises \<^verbatim>\<open>Exception\<close>, or no
  response at all).
\<close>

datatype api_response =
    Solution "string list"
  | ApiError

text \<open>
  What one solve round reads from its collaborators: the captured frame
  (\<^verbatim>\<open>config.capture.frame\<close>, \<open>None\<close> before the first capture), the solver's response
  to it and the matches of the buff icon in it. The polls of a round match the same frame.
\<close>

record round_input =
  frame :: "nat option"
  response :: api_response
  rune_buff :: "(int \<times> int) list"

text \<open>
  \<^verbatim>\<open>ArrowPredictionClient.predict_from_frame\<close>: \<^verbatim>\<open>_frame_to_base64_jpeg\<close> reads
  \<^verbatim>\<open>frame.shape\<close>, which raises AttributeError on \<open>None\<close>; then the request is posted,
  and anything but status 200 raises \<^verbatim>\<open>Exception\<close>.
\<close>

definition predict_from_frame :: "nat option \<Rightarrow> api_response \<Rightarrow> error + string list" where
  "predict_from_frame fr resp =
     (case fr of
        None \<Rightarrow> Inl AttributeError
      | Some f \<Rightarrow> (case resp of Solution sol \<Rightarrow> Inr sol | ApiError \<Rightarrow> Inl Exception))"

text \<open>\<^verbatim>\<open>min(rune_buff, key=lambda p: p[0])\<close>: the first among the leftmost matches.\<close>

fun leftmost :: "int \<times> int \<Rightarrow> (int \<times> int) list \<Rightarrow> int \<times> int" where
  "leftmost m [] = m"
| "leftmost m (p # ps) = leftmost (if fst p < fst m then p else m) ps"

text \<open>
  \<^verbatim>\<open>for _ in range(3)\<close>: on a match, click it (offset by the window's \<^verbatim>\<open>left\<close> and
  \<^verbatim>\<open>top\<close>), clear \<^verbatim>\<open>rune_active\<close>, reset \<^verbatim>\<open>attempts\<close>, set \<^verbatim>\<open>solution_found\<close> and
  \<^verbatim>\<open>break\<close>. The state is the Bot and \<^verbatim>\<open>solution_found\<close>.
\<close>

fun poll_buff :: "nat \<Rightarrow> int \<times> int \<Rightarrow> (int \<times> int) list \<Rightarrow> bot \<times> bool \<Rightarrow> bot \<times> bool" where
  "poll_buff 0 win rb s = s"
| "poll_buff (Suc n) win rb s =
     (case rb of
        [] \<Rightarrow> poll_buff n win rb s
      | p # ps \<Rightarrow>
          (fst s\<lparr>events := events (fst s) @
                     [Click (fst (leftmost p ps) + fst win) (snd (leftmost p ps) + snd win)],
                  rune_active := False, attempts := 0\<rparr>,
           True))"

text \<open>
  One iteration of \<^verbatim>\<open>for i in range(3)\<close>: ask the solver; an exception of
  \<^verbatim>\<open>predict_from_frame\<close> is not caught and ends \<^verbatim>\<open>_solve_rune\<close>. With a four-symbol
  answer, press the arrows and poll for the buff icon. Slicing the frame for the match
  reads \<^verbatim>\<open>frame.shape\<close>, which fails on \<open>None\<close>.
\<close>

definition solve_round :: "int \<times> int \<Rightarrow> round_input \<Rightarrow> bot \<times> bool \<Rightarrow> error + bot \<times> bool" where
  "solve_round win r s =
     (case predict_from_frame (frame r) (response r) of
        Inl e \<Rightarrow> Inl e
      | Inr solution \<Rightarrow>
          if solution \<noteq> [] \<and> length solution = 4 then
            (case frame r of
               None \<Rightarrow> Inl AttributeError
             | Some f \<Rightarrow>
                 Inr (poll_buff (Suc (Suc (Suc 0))) win (rune_buff r)
                        (fst s\<lparr>events := events (fst s) @ map Press solution\<rparr>, snd s)))
          else Inr s)"

text \<open>
  The statements after the loop: save the last frame when nothing was solved, count the
  attempt, every third one go through the cash shop, past 9 give the rune up, past 20
  kill the game and the bot.
\<close>

definition after_rounds :: "bool \<Rightarrow> nat option \<Rightarrow> bot \<Rightarrow> bot" where
  "after_rounds solution_found last_frame b =
     (let b1 = (if \<not> solution_found \<and> last_frame \<noteq> None
                then b\<lparr>events := events b @ [SaveFailedDetection]\<rparr> else b);
          b2 = b1\<lparr>attempts := attempts b1 + 1\<rparr>;
          b3 = (if attempts b2 mod 3 = 0
                then b2\<lparr>events := events b2 @ [EnterCashShop, ExitCashShop]\<rparr> else b2);
          b4 = (if attempts b3 > 9 then b3\<lparr>rune_active := False\<rparr> else b3)
      in if attempts b4 > 20
         then b4\<lparr>events := events b4 @ [TaskKill ''MapleStory.exe'', TaskKillSelf]\<rparr>
         else b4)"

text \<open>
  The start of \<^verbatim>\<open>_solve_rune\<close>: \<^verbatim>\<open>move\<close> to the rune and \<^verbatim>\<open>adjust\<close> twice, commands
  of the command book.
\<close>

definition approach_rune :: "env \<Rightarrow> bot \<Rightarrow> world \<Rightarrow> error + world" where
  "approach_rune ev b w =
     (case exec_command ev (Move (fst (rune_pos b)) (snd (rune_pos b))) w of
        Inl e \<Rightarrow> Inl e
      | Inr w1 \<Rightarrow>
          (case exec_command ev (Adjust (fst (rune_pos b)) (snd (rune_pos b))) w1 of
             Inl e \<Rightarrow> Inl e
           | Inr w2 \<Rightarrow> exec_command ev (Adjust (fst (rune_pos b)) (snd (rune_pos b))) w2))"

text \<open>\<^verbatim>\<open>_solve_rune\<close>, decorated with \<^verbatim>\<open>run_if_enabled\<close>, for the inputs of its three rounds.\<close>

definition solve_rune_body ::
  "env \<Rightarrow> int \<times> int \<Rightarrow> round_input \<times> round_input \<times> round_input \<Rightarrow> bot \<Rightarrow> world
     \<Rightarrow> error + bot \<times> world"
where
  "solve_rune_body ev win rounds b w =
     (case approach_rune ev b w of
        Inl e \<Rightarrow> Inl e
      | Inr w3 \<Rightarrow>
          (case solve_round win (fst rounds)
                  (b\<lparr>events := events b @ [Press (interact_key b)]\<rparr>, False) of
             Inl e \<Rightarrow> Inl e
           | Inr s1 \<Rightarrow>
               (case solve_round win (fst (snd rounds)) s1 of
                  Inl e \<Rightarrow> Inl e
                | Inr s2 \<Rightarrow>
                    (case solve_round win (snd (snd rounds)) s2 of
                       Inl e \<Rightarrow> Inl e
                     | Inr s3 \<Rightarrow>
                         Inr (after_rounds (snd s3) (frame (snd (snd rounds))) (fst s3), w3)))))"

definition solve_rune ::
  "env \<Rightarrow> int \<times> int \<Rightarrow> round_input \<times> round_input \<times> round_input \<Rightarrow> bot \<Rightarrow> world
     \<Rightarrow> error + bot \<times> world"
where
  "solve_rune ev win rounds = run_if_enabled (solve_rune_body ev win rounds)"

text \<open>
  A failed round: a frame was captured, the solver answered, and the answer does not
  have four symbols or the buff icon is not found in the frame afterwards.
\<close>

definition round_fails :: "round_input \<Rightarrow> bool" where
  "round_fails r \<longleftrightarrow>
     frame r \<noteq> None \<and>
     (case response r of
        Solution sol \<Rightarrow> length sol \<noteq> 4 \<or> rune_buff r = []
      | ApiError \<Rightarrow> False)"

text \<open>The arrow keys a round presses.\<close>

definition round_presses :: "round_input \<Rightarrow> event list" where
  "round_presses r =
     (case response r of
        Solution sol \<Rightarrow> if length sol = 4 then map Press sol else []
      | ApiError \<Rightarrow> [])"

section \<open>Concrete inputs used in the examples\<close>

text \<open>
  An environment whose validators accept what their names say, whose only known setting
  is \<^verbatim>\<open>move_tolerance\<close>, and whose commands leave the shared state alone; and a state of
  the shared variables with the routine enabled.
\<close>

definition example_env :: env where
  "example_env =
     \<lparr>float_of_str = (\<lambda>s. if s = ''0.5'' then Some (1/2) else None),
      repr_float = (\<lambda>r. if r = 1/2 then ''0.5'' else ''?''),
      str_obj = (\<lambda>n. ''<object>''),
      validate_nonnegative_int =
        (\<lambda>v. case v of VInt i \<Rightarrow> if i \<ge> 0 then Inr i else Inl ValueError | _ \<Rightarrow> Inl ValueError),
      validate_boolean =
        (\<lambda>v. case v of
               VBool b \<Rightarrow> Inr b
             | VStr s \<Rightarrow> if s = ''True'' then Inr True
                         else if s = ''False'' then Inr False else Inl ValueError
             | _ \<Rightarrow> Inl ValueError),
      SETTING_VALIDATORS = [''move_tolerance'' \<mapsto> (\<lambda>v. Inr v)],
      exec_command = (\<lambda>a w. Inr w)\<rparr>"

definition example_world :: world where
  "example_world =
     \<lparr>enabled = True, listener_enabled = True, routine_index = Some 0,
      routine_labels = [''start'' \<mapsto> 0], label_index = (\<lambda>a. Some 0),
      settings = [''skill_rotation_mode'' \<mapsto> VBool False], stdout = []\<rparr>"

definition example_jump :: jump where
  "example_jump =
     \<lparr>component_id = ''>'', kwargs = [(''label'', VStr ''nowhere''), (''frequency'', VInt 2),
        (''skip'', VStr ''False'')],
      jump.label = ''nowhere'', jump.frequency = 2, jump.counter = 0, link = None\<rparr>"

definition example_point :: point where
  "example_point =
     \<lparr>component_id = ''*'', kwargs = [(''x'', VInt 1), (''y'', VInt 2), (''frequency'', VInt 3),
        (''skip'', VStr ''False''), (''adjust'', VStr ''False'')],
      x = 1, y = 2, location = (1, 2), point.frequency = 3, point.counter = 2, adjust = False,
      commands = Some []\<rparr>"

definition example_mixer :: mixer where
  "example_mixer = \<lparr>loaded = None, volume = 1, playing = False, loops = 0\<rparr>"

definition example_bot :: bot where
  "example_bot =
     \<lparr>rune_active = True, rune_pos = (1/2, 1/4), attempts = 8, interact_key = ''y'', events = []\<rparr>"

definition no_answer :: round_input where
  "no_answer = \<lparr>frame = Some 0, response = Solution [], rune_buff = []\<rparr>"

definition wrong_answer :: round_input where
  "wrong_answer =
     \<lparr>frame = Some 1, response = Solution [''up'', ''down'', ''left'', ''right''],
      rune_buff = []\<rparr>"

text \<open>A rounding to compute with: to the nearest multiple of \<open>1/1024\<close>, halves upwards.\<close>

definition round_to_grid :: "real \<Rightarrow> real" where
  "round_to_grid r = of_int \<lfloor>r * 1024 + 1/2\<rfloor> / 1024"

section \<open>Properties of the CooldownTracker\<close>

lemma available_loop_all:
  "list_all (\<lambda>kv. snd kv \<le> now) cds \<Longrightarrow>
   available_loop (map_of (map (\<lambda>kv. (fst kv, 0)) (pre @ cds))) now cds out
     = Inr (out @ map fst cds)"
proof (induction cds arbitrary: pre out)
  case Nil
  then show ?case by simp
next
  case (Cons kv cds)
  obtain k cd where kv: "kv = (k, cd)" by (cases kv)
  have step: "pre @ kv # cds = (pre @ [kv]) @ cds" by simp
  have rest: "available_loop (map_of (map (\<lambda>kv. (fst kv, 0)) (pre @ kv # cds))) now cds (out @ [k])
                = Inr ((out @ [k]) @ map fst cds)"
    unfolding step using Cons.prems by (intro Cons.IH) simp
  have "k \<in> fst ` set (map (\<lambda>kv. (fst kv, 0::real)) (pre @ kv # cds))"
    by (force simp: kv)
  then obtain t where t: "map_of (map (\<lambda>kv. (fst kv, 0::real)) (pre @ kv # cds)) k = Some t"
    by (metis map_of_eq_None_iff not_Some_eq)
  then have "(k, t) \<in> set (map (\<lambda>kv. (fst kv, 0::real)) (pre @ kv # cds))"
    by (rule map_of_SomeD)
  then have t0: "t = 0" by auto
  from Cons.prems have "cd \<le> now" by (simp add: kv)
  with rest t t0 show ?case by (simp add: kv)
qed

text \<open>
  C10. Right after construction every key of the table is returned, in table order,
  provided the clock reads at least every cooldown: all \<^verbatim>\<open>last_used\<close> entries are 0.0, so
  there is no initial waiting period.
\<close>

theorem C10_fresh_tracker_all_available:
  "list_all (\<lambda>kv. snd kv \<le> now) cds \<Longrightarrow>
   get_available (CooldownTracker cds) now = Inr (map fst cds)"
  using available_loop_all [of now cds "[]" "[]"]
  by (simp add: get_available_def CooldownTracker_def)

theorem C10_fresh_tracker_all_available_witness:
  "list_all (\<lambda>kv. snd kv \<le> (1000::real)) [(''ctrl'', 0), (''a'', 30), (''s'', 120)] \<and>
   get_available (CooldownTracker [(''ctrl'', 0), (''a'', 30), (''s'', 120)]) 1000
     = Inr [''ctrl'', ''a'', ''s'']"
  using C10_fresh_tracker_all_available [of 1000 "[(''ctrl'', 0), (''a'', 30), (''s'', 120)]"]
  by simp

lemma available_loop_filter:
  "list_all (\<lambda>kv. lu (fst kv) \<noteq> None) cds \<Longrightarrow>
   available_loop lu now cds out
     = Inr (out @ map fst (filter (\<lambda>kv. snd kv \<le> 0 \<or> now - the (lu (fst kv)) \<ge> snd kv) cds))"
proof (induction cds arbitrary: out)
  case Nil
  then show ?case by simp
next
  case (Cons kv cds)
  obtain k cd where kv: "kv = (k, cd)" by (cases kv)
  from Cons.prems obtain t where t: "lu k = Some t" by (auto simp: kv)
  from Cons.prems have rest: "list_all (\<lambda>kv. lu (fst kv) \<noteq> None) cds" by simp
  show ?case using Cons.IH [OF rest] t by (simp add: kv)
qed

lemma get_available_filter:
  "tracker_ok t \<Longrightarrow>
   get_available t now
     = Inr (map fst (filter (\<lambda>kv. snd kv \<le> 0 \<or> now - the (last_used t (fst kv)) \<ge> snd kv)
                        (cooldowns t)))"
  using available_loop_filter [of "last_used t" "cooldowns t" now "[]"]
  by (simp add: get_available_def tracker_ok_def)

lemma tracker_ok_init: "distinct (map fst cds) \<Longrightarrow> tracker_ok (CooldownTracker cds)"
proof -
  have "map_of (map (\<lambda>kv. (fst kv, 0::real)) cds) (fst kv) \<noteq> None" if "kv \<in> set cds" for kv
  proof -
    have "fst ` set (map (\<lambda>kv. (fst kv, 0::real)) cds) = fst ` set cds"
      by (simp add: image_image)
    with that have "fst kv \<in> fst ` set (map (\<lambda>kv. (fst kv, 0::real)) cds)" by simp
    then show ?thesis unfolding map_of_eq_None_iff by blast
  qed
  then show "distinct (map fst cds) \<Longrightarrow> tracker_ok (CooldownTracker cds)"
    by (simp add: tracker_ok_def CooldownTracker_def list_all_iff)
qed

lemma tracker_ok_record_used: "tracker_ok t \<Longrightarrow> tracker_ok (record_used t k now)"
  by (simp add: tracker_ok_def record_used_def list_all_iff)

lemma distinct_keys_unique:
  "distinct (map fst cds) \<Longrightarrow> (k, a) \<in> set cds \<Longrightarrow> (k, b) \<in> set cds \<Longrightarrow> a = b"
  by (meson eq_key_imp_eq_value)

text \<open>
  C4. For a key \<open>k\<close> of the table whose cooldown \<open>cd\<close> is not negative: if \<open>cd = 0\<close>
  the key is available at every time; immediately after \<^verbatim>\<open>record_used(k)\<close> (same clock
  reading) the key is not available unless \<open>cd = 0\<close>; and once at least \<open>cd\<close> seconds
  have passed since \<^verbatim>\<open>record_used(k)\<close> it is available again. \<^verbatim>\<open>get_available\<close> does not
  raise in these states.
\<close>

theorem C4_cooldown_availability:
  assumes ok: "tracker_ok t" and k: "(k, cd) \<in> set (cooldowns t)" and nonneg: "0 \<le> cd"
  shows "(cd = 0 \<longrightarrow> (\<exists>xs. get_available t now = Inr xs \<and> k \<in> set xs)) \<and>
         (cd \<noteq> 0 \<longrightarrow> (\<exists>xs. get_available (record_used t k now) now = Inr xs \<and> k \<notin> set xs)) \<and>
         (later - now \<ge> cd \<longrightarrow>
            (\<exists>xs. get_available (record_used t k now) later = Inr xs \<and> k \<in> set xs))"
proof -
  let ?t = "record_used t k now"
  have ok': "tracker_ok ?t" using ok by (rule tracker_ok_record_used)
  have cds: "cooldowns ?t = cooldowns t" by (simp add: record_used_def)
  have lu: "last_used ?t k = Some now" by (simp add: record_used_def)
  have dist: "distinct (map fst (cooldowns t))" using ok by (simp add: tracker_ok_def)
  have always: "cd = 0 \<longrightarrow> (\<exists>xs. get_available t now = Inr xs \<and> k \<in> set xs)"
    using k by (force simp: get_available_filter [OF ok])
  have just_used: "cd \<noteq> 0 \<longrightarrow> (\<exists>xs. get_available ?t now = Inr xs \<and> k \<notin> set xs)"
  proof
    assume "cd \<noteq> 0"
    with nonneg have pos: "cd > 0" by simp
    have "b = cd" if "(k, b) \<in> set (cooldowns t)" for b
      using distinct_keys_unique [OF dist that k] .
    then show "\<exists>xs. get_available ?t now = Inr xs \<and> k \<notin> set xs"
      using pos by (auto simp: get_available_filter [OF ok'] cds lu)
  qed
  have again: "later - now \<ge> cd \<longrightarrow> (\<exists>xs. get_available ?t later = Inr xs \<and> k \<in> set xs)"
    using k by (force simp: get_available_filter [OF ok'] cds lu)
  from always just_used again show ?thesis by blast
qed

theorem C4_cooldown_availability_witness:
  "tracker_ok (CooldownTracker [(''ctrl'', 0), (''a'', 30)]) \<and>
   (''a'', 30) \<in> set (cooldowns (CooldownTracker [(''ctrl'', 0), (''a'', 30)])) \<and>
   (''ctrl'', 0) \<in> set (cooldowns (CooldownTracker [(''ctrl'', 0), (''a'', 30)])) \<and>
   (0::real) \<le> 30 \<and> (0::real) \<le> 0 \<and>
   (\<exists>xs. get_available (CooldownTracker [(''ctrl'', 0), (''a'', 30)]) 5 = Inr xs \<and> ''ctrl'' \<in> set xs) \<and>
   (\<exists>xs. get_available (record_used (CooldownTracker [(''ctrl'', 0), (''a'', 30)]) ''a'' 100) 100 = Inr xs
          \<and> ''a'' \<notin> set xs) \<and>
   (\<exists>xs. get_available (record_used (CooldownTracker [(''ctrl'', 0), (''a'', 30)]) ''a'' 100) 130 = Inr xs
          \<and> ''a'' \<in> set xs)"
proof -
  let ?t = "CooldownTracker [(''ctrl'', 0), (''a'', 30)]"
  have ok: "tracker_ok ?t" by (rule tracker_ok_init) simp
  have a: "(''a'', 30) \<in> set (cooldowns ?t)" by (simp add: CooldownTracker_def)
  have c: "(''ctrl'', 0) \<in> set (cooldowns ?t)" by (simp add: CooldownTracker_def)
  have z: "(0::real) \<le> 0" and n: "(0::real) \<le> 30" by simp_all
  show ?thesis
    using ok a c
      C4_cooldown_availability [OF ok c z, of 5 5]
      C4_cooldown_availability [OF ok a n, of 100 130]
    by simp
qed

section \<open>Properties of the routine components\<close>

text \<open>
  C1, as the spec words it: the increment wraps modulo \<open>max(repeat_period, 1)\<close>, so with
  period 0 the counter stays 0 and no division by zero occurs. The code divides by
  \<^verbatim>\<open>self.frequency\<close> itself: at frequency 0 the increment of an enabled visit raises
  ZeroDivisionError, for a Point and for a Jump.
\<close>

theorem C1_zero_frequency_counterexample:
  "Point_increment_counter (example_point\<lparr>point.frequency := 0, point.counter := 0\<rparr>) example_world
     = Inl ZeroDivisionError \<and>
   Jump_increment_counter (example_jump\<lparr>jump.frequency := 0\<rparr>) example_world
     = Inl ZeroDivisionError"
  by (simp add: Point_increment_counter_def Point_increment_counter_body_def
      Jump_increment_counter_def Jump_increment_counter_body_def run_if_enabled_def
      example_point_def example_jump_def example_world_def)

text \<open>
  C1 (amended). For a Point and a Jump whose frequency is at least 1, the increment of an
  enabled visit does not fail, leaves the shared state alone and sets the counter to
  \<open>(counter + 1) mod frequency\<close>, which is \<open>(counter + 1) mod max(frequency, 1)\<close>; whatever
  the counter was before, it lies in \<open>[0, max(frequency, 1))\<close> afterwards.
\<close>

theorem C1_increment_wraps:
  assumes "enabled w" and "1 \<le> point.frequency p" and "1 \<le> jump.frequency j"
  shows "(\<exists>p'. Point_increment_counter p w = Inr (p', w) \<and>
               p' = p\<lparr>point.counter := (point.counter p + 1) mod max (point.frequency p) 1\<rparr> \<and>
               0 \<le> point.counter p' \<and> point.counter p' < max (point.frequency p) 1) \<and>
         (\<exists>j'. Jump_increment_counter j w = Inr (j', w) \<and>
               j' = j\<lparr>jump.counter := (jump.counter j + 1) mod max (jump.frequency j) 1\<rparr> \<and>
               0 \<le> jump.counter j' \<and> jump.counter j' < max (jump.frequency j) 1)"
proof -
  have mp: "max (point.frequency p) 1 = point.frequency p" using assms(2) by simp
  have mj: "max (jump.frequency j) 1 = jump.frequency j" using assms(3) by simp
  have "Point_increment_counter p w
          = Inr (p\<lparr>point.counter := (point.counter p + 1) mod point.frequency p\<rparr>, w)"
    using assms(1,2)
    by (simp add: Point_increment_counter_def Point_increment_counter_body_def run_if_enabled_def)
  moreover have "Jump_increment_counter j w
          = Inr (j\<lparr>jump.counter := (jump.counter j + 1) mod jump.frequency j\<rparr>, w)"
    using assms(1,3)
    by (simp add: Jump_increment_counter_def Jump_increment_counter_body_def run_if_enabled_def)
  ultimately show ?thesis using assms(2,3) by (simp add: mp mj)
qed

theorem C1_increment_wraps_witness:
  "enabled example_world \<and> 1 \<le> point.frequency example_point \<and>
   1 \<le> jump.frequency example_jump \<and>
   Point_increment_counter example_point example_world
     = Inr (example_point\<lparr>point.counter := 0\<rparr>, example_world) \<and>
   Jump_increment_counter example_jump example_world
     = Inr (example_jump\<lparr>jump.counter := 1\<rparr>, example_world)"
proof -
  have e: "enabled example_world" by (simp add: example_world_def)
  have p: "1 \<le> point.frequency example_point" by (simp add: example_point_def)
  have j: "1 \<le> jump.frequency example_jump" by (simp add: example_jump_def)
  have pc: "point.counter example_point = 2" "point.frequency example_point = 3"
    by (simp_all add: example_point_def)
  have jc: "jump.counter example_jump = 0" "jump.frequency example_jump = 2"
    by (simp_all add: example_jump_def)
  show ?thesis using e p j C1_increment_wraps [OF e p j] by (simp add: pc jc)
qed

text \<open>
  C2, as the spec words it: an unbound Jump still increments its counter on each enabled
  visit. In the code the increment sits in the \<^verbatim>\<open>else\<close> branch: executing an unbound Jump
  with frequency 2 and counter 0 prints the diagnostic and leaves the counter at 0.
\<close>

theorem C2_unbound_jump_counterexample:
  "execute example_env (JumpE example_jump) example_world
     = Inr (JumpE example_jump,
            example_world\<lparr>stdout := [missing_label_message ''nowhere'']\<rparr>) \<and>
   jump.counter example_jump = 0 \<and> jump.frequency example_jump = 2 \<and>
   link example_jump = None \<and> enabled example_world"
  by (simp add: execute_def run_if_enabled_def wrap_def Jump_main_def example_jump_def
      example_world_def)

text \<open>
  C2 (amended). Executing a Jump whose link is unresolved, with the routine enabled,
  never raises; it appends the diagnostic line to the output and changes nothing else:
  the cursor (\<^verbatim>\<open>config.routine.index\<close>) stays where it is and the Jump, including its
  counter, is unchanged.
\<close>

theorem C2_unbound_jump_noop:
  assumes "enabled w" and "link j = None"
  shows "execute ev (JumpE j) w
           = Inr (JumpE j, w\<lparr>stdout := stdout w @ [missing_label_message (jump.label j)]\<rparr>)"
  using assms by (simp add: execute_def run_if_enabled_def wrap_def Jump_main_def)

theorem C2_unbound_jump_noop_witness:
  "enabled example_world \<and> link example_jump = None \<and>
   execute example_env (JumpE example_jump) example_world
     = Inr (JumpE example_jump,
            example_world\<lparr>stdout := stdout example_world @
                            [missing_label_message (jump.label example_jump)]\<rparr>)"
proof -
  have e: "enabled example_world" by (simp add: example_world_def)
  have l: "link example_jump = None" by (simp add: example_jump_def)
  show ?thesis using e l C2_unbound_jump_noop [OF e l, of example_env] by simp
qed

text \<open>
  Pausing in the middle of a Point: when the commands of the visit leave
  \<^verbatim>\<open>config.enabled\<close> false, the gated increment is skipped and the Point is as before.
\<close>

lemma Point_increment_counter_world:
  "Point_increment_counter p w = Inr (p', w') \<Longrightarrow> w' = w \<and> (\<not> enabled w \<longrightarrow> p' = p)"
  by (auto simp: Point_increment_counter_def Point_increment_counter_body_def run_if_enabled_def
      split: if_splits)

lemma Point_main_paused_midway:
  assumes "Point_main ev p w = Inr (p', w')" and "\<not> enabled w'"
  shows "p' = p"
proof -
  from assms(1) obtain w3 where "Point_increment_counter p w3 = Inr (p', w')"
    by (auto simp: Point_main_def split: if_splits sum.splits option.splits)
  with assms(2) show ?thesis using Point_increment_counter_world by blast
qed

text \<open>
  C5. While \<^verbatim>\<open>config.enabled\<close> is false, executing any routine element (Point, Label,
  Jump, Setting) returns without raising and leaves the element and the whole shared
  state, cursor included, exactly as they were; the counter increments of Point and Jump
  are gated the same way. The gate is \<^verbatim>\<open>run_if_enabled\<close>, modelled from the spec.
\<close>

theorem C5_disabled_is_noop:
  assumes "\<not> enabled w"
  shows "execute ev e w = Inr (e, w) \<and>
         Point_increment_counter p w = Inr (p, w) \<and>
         Jump_increment_counter j w = Inr (j, w)"
  using assms
  by (simp add: execute_def Point_increment_counter_def Jump_increment_counter_def
      run_if_enabled_def)

theorem C5_disabled_is_noop_witness:
  "\<not> enabled (example_world\<lparr>enabled := False\<rparr>) \<and>
   execute example_env (PointE example_point) (example_world\<lparr>enabled := False\<rparr>)
     = Inr (PointE example_point, example_world\<lparr>enabled := False\<rparr>) \<and>
   Point_increment_counter example_point (example_world\<lparr>enabled := False\<rparr>)
     = Inr (example_point, example_world\<lparr>enabled := False\<rparr>) \<and>
   Jump_increment_counter example_jump (example_world\<lparr>enabled := False\<rparr>)
     = Inr (example_jump, example_world\<lparr>enabled := False\<rparr>)"
proof -
  have d: "\<not> enabled (example_world\<lparr>enabled := False\<rparr>)" by simp
  show ?thesis
    using d C5_disabled_is_noop [OF d, of example_env "PointE example_point" example_point example_jump]
    by simp
qed

section \<open>Properties of construction, update and encode\<close>

lemma update_atomic:
  assumes same: "snd (init self as kw) = snd (init fresh as kw)"
  shows "(snd (init fresh as kw) = Some e \<longrightarrow> update init fresh self as kw = (self, Some e)) \<and>
         (snd (update init fresh self as kw) = Some e \<longrightarrow>
            update init fresh self as kw = (self, Some e) \<and> snd (init fresh as kw) = Some e)"
proof (cases "init fresh as kw")
  case (Pair s r)
  show ?thesis
  proof (cases r)
    case None
    with Pair have "update init fresh self as kw = init self as kw" by (simp add: update_def)
    moreover from same Pair None have "snd (init self as kw) = None" by simp
    ultimately show ?thesis using Pair None by simp
  next
    case (Some e')
    with Pair have "update init fresh self as kw = (self, Some e')" by (simp add: update_def)
    then show ?thesis using Pair Some by simp
  qed
qed

lemma tagged_atomic:
  assumes "(snd X = Some e \<longrightarrow> U = (s, Some e)) \<and> (snd U = Some e \<longrightarrow> U = (s, Some e) \<and> snd X = Some e)"
  shows "(snd (tag c X) = Some e \<longrightarrow> tag c U = (c s, Some e)) \<and>
         (snd (tag c U) = Some e \<longrightarrow> tag c U = (c s, Some e) \<and> snd (tag c X) = Some e)"
proof -
  obtain a b where U: "U = (a, b)" by (cases U)
  obtain a' b' where X: "X = (a', b')" by (cases X)
  from assms show ?thesis unfolding U X tag_def by auto
qed

lemma Point_init_error_indep:
  "snd (Point_init ev w self as kw) = snd (Point_init ev w fresh_point as kw)"
  by (simp add: Point_init_def Let_def split: sum.splits option.splits)

lemma Label_init_error_indep:
  "snd (Label_init ev w self as kw) = snd (Label_init ev w fresh_label as kw)"
  by (simp add: Label_init_def Let_def split: sum.splits option.splits)

lemma Jump_init_error_indep:
  "snd (Jump_init ev w self as kw) = snd (Jump_init ev w fresh_jump as kw)"
  by (simp add: Jump_init_def Let_def split: sum.splits option.splits)

lemma Setting_init_error_indep:
  "snd (Setting_init ev w self as kw) = snd (Setting_init ev w fresh_setting as kw)"
  by (simp add: Setting_init_def Let_def split: sum.splits option.splits)

text \<open>
  C9. \<^verbatim>\<open>Component.update\<close> validates by constructing a throwaway instance first. For
  every element class and every argument list: if that construction raises \<open>e\<close> (wrong
  arity or type, unknown setting key, duplicate label name), \<^verbatim>\<open>update\<close> raises \<open>e\<close> and
  the receiver is exactly what it was; and whenever \<^verbatim>\<open>update\<close> raises at all, the
  receiver is unchanged and the exception is the one of the throwaway construction.
\<close>

theorem C9_update_atomic:
  "(snd (construct ev w el as kw) = Some e \<longrightarrow> update_element ev w el as kw = (el, Some e)) \<and>
   (snd (update_element ev w el as kw) = Some e \<longrightarrow>
      update_element ev w el as kw = (el, Some e) \<and> snd (construct ev w el as kw) = Some e)"
proof (cases el)
  case (PointE p)
  show ?thesis unfolding PointE construct.simps update_element.simps Point_update_def
    by (rule tagged_atomic, rule update_atomic, rule Point_init_error_indep)
next
  case (LabelE l)
  show ?thesis unfolding LabelE construct.simps update_element.simps Label_update_def
    by (rule tagged_atomic, rule update_atomic, rule Label_init_error_indep)
next
  case (JumpE j)
  show ?thesis unfolding JumpE construct.simps update_element.simps Jump_update_def
    by (rule tagged_atomic, rule update_atomic, rule Jump_init_error_indep)
next
  case (SettingE s)
  show ?thesis unfolding SettingE construct.simps update_element.simps Setting_update_def
    by (rule tagged_atomic, rule update_atomic, rule Setting_init_error_indep)
qed

lemma py_join_Cons: "py_join sep (a # xs) = a @ concat (map (\<lambda>s. sep @ s) xs)"
  by (induction xs arbitrary: a) simp_all

lemma encode_loop_filter:
  "encode_loop ev kws arr =
     arr @ map (\<lambda>kv. fst kv @ ''='' @ py_str (repr_float ev) (str_obj ev) (snd kv))
              (filter (\<lambda>kv. fst kv \<noteq> ''id'' \<and> is_primitive (snd kv)) kws)"
  by (induction kws arbitrary: arr) auto

lemma bind_params_keys: "bind_params ps as kw = Inr b \<Longrightarrow> map fst b = map fst ps"
proof (induction ps as kw arbitrary: b rule: bind_params.induct)
  case (1 kw)
  then show ?case by (simp split: if_splits)
next
  case (2 a as kw)
  then show ?case by simp
next
  case (3 p d ps a as kw)
  from "3.prems" have nk: "map_of kw p = None" by (simp split: if_splits)
  with "3.prems" obtain b0 where b0: "bind_params ps as kw = Inr b0" and b: "b = (p, a) # b0"
    by (auto split: sum.splits)
  from "3.IH" [OF _ b0] nk have "map fst b0 = map fst ps" by simp
  with b show ?case by simp
next
  case (4 p d ps kw)
  show ?case
  proof (cases "map_of kw p")
    case (Some v)
    with "4.prems" obtain b0 where
      b0: "bind_params ps [] (filter (\<lambda>kv. fst kv \<noteq> p) kw) = Inr b0" and b: "b = (p, v) # b0"
      by (auto split: sum.splits)
    from "4.IH"(2) [OF Some b0] have "map fst b0 = map fst ps" .
    with b show ?thesis by simp
  next
    case None
    with "4.prems" obtain dv where dv: "d = Some dv" by (cases d) auto
    with None "4.prems" obtain b0 where
      b0: "bind_params ps [] kw = Inr b0" and b: "b = (p, dv) # b0"
      by (auto split: sum.splits)
    from "4.IH"(1) [OF None dv b0] have "map fst b0 = map fst ps" .
    with b show ?thesis by simp
  qed
qed

theorem C9_update_atomic_witness:
  "snd (construct example_env example_world (PointE example_point) [VObj 3, VInt 1] [])
     = Some TypeError \<and>
   snd (update_element example_env example_world (PointE example_point) [VObj 3, VInt 1] [])
     = Some TypeError \<and>
   update_element example_env example_world (PointE example_point) [VObj 3, VInt 1] []
     = (PointE example_point, Some TypeError)"
proof -
  have c: "snd (construct example_env example_world (PointE example_point) [VObj 3, VInt 1] [])
             = Some TypeError"
    by code_simp
  have u: "update_element example_env example_world (PointE example_point) [VObj 3, VInt 1] []
             = (PointE example_point, Some TypeError)"
    by (rule C9_update_atomic [THEN conjunct1, THEN mp, OF c])
  then have s: "snd (update_element example_env example_world (PointE example_point)
                       [VObj 3, VInt 1] []) = Some TypeError"
    by (simp only: snd_conv)
  from c s u show ?thesis by (intro conjI)
qed

lemma Point_init_bound:
  "Point_init ev w s as kw = (p, None) \<Longrightarrow>
   \<exists>b. bind_params [(''x'', None), (''y'', None), (''frequency'', Some (VInt 1)),
                      (''skip'', Some (VStr ''False'')), (''adjust'', Some (VStr ''False''))] as kw = Inr b \<and>
       kwargs p = b \<and> component_id p = component_id s"
  by (auto simp: Point_init_def Let_def split: sum.splits option.splits if_splits)

lemma Label_init_bound:
  "Label_init ev w s as kw = (l, None) \<Longrightarrow>
   \<exists>b. bind_params [(''label'', None)] as kw = Inr b \<and>
       kwargs l = b \<and> component_id l = component_id s"
  by (auto simp: Label_init_def Let_def split: sum.splits option.splits if_splits)

lemma Jump_init_bound:
  "Jump_init ev w s as kw = (j, None) \<Longrightarrow>
   \<exists>b. bind_params [(''label'', None), (''frequency'', Some (VInt 1)),
                      (''skip'', Some (VStr ''False''))] as kw = Inr b \<and>
       kwargs j = b \<and> component_id j = component_id s"
  by (auto simp: Jump_init_def Let_def split: sum.splits option.splits if_splits)

lemma Setting_init_bound:
  "Setting_init ev w s as kw = (t, None) \<Longrightarrow>
   \<exists>b. bind_params [(''target'', None), (''value'', None)] as kw = Inr b \<and>
       kwargs t = b \<and> component_id t = component_id s"
  by (auto simp: Setting_init_def Let_def split: sum.splits option.splits if_splits)

lemma Point_init_kwargs:
  assumes "Point_init ev w s as kw = (p, None)"
  shows "map fst (kwargs p) = [''x'', ''y'', ''frequency'', ''skip'', ''adjust''] \<and>
         component_id p = component_id s"
proof -
  from Point_init_bound [OF assms] obtain b where
    b: "bind_params [(''x'', None), (''y'', None), (''frequency'', Some (VInt 1)),
          (''skip'', Some (VStr ''False'')), (''adjust'', Some (VStr ''False''))] as kw = Inr b"
    and k: "kwargs p = b" and c: "component_id p = component_id s" by blast
  from bind_params_keys [OF b] k c show ?thesis by simp
qed

lemma Label_init_kwargs:
  assumes "Label_init ev w s as kw = (l, None)"
  shows "map fst (kwargs l) = [''label''] \<and> component_id l = component_id s"
proof -
  from Label_init_bound [OF assms] obtain b where
    b: "bind_params [(''label'', None)] as kw = Inr b"
    and k: "kwargs l = b" and c: "component_id l = component_id s" by blast
  from bind_params_keys [OF b] k c show ?thesis by simp
qed

lemma Jump_init_kwargs:
  assumes "Jump_init ev w s as kw = (j, None)"
  shows "map fst (kwargs j) = [''label'', ''frequency'', ''skip''] \<and>
         component_id j = component_id s"
proof -
  from Jump_init_bound [OF assms] obtain b where
    b: "bind_params [(''label'', None), (''frequency'', Some (VInt 1)),
          (''skip'', Some (VStr ''False''))] as kw = Inr b"
    and k: "kwargs j = b" and c: "component_id j = component_id s" by blast
  from bind_params_keys [OF b] k c show ?thesis by simp
qed

lemma Setting_init_kwargs:
  assumes "Setting_init ev w s as kw = (t, None)"
  shows "map fst (kwargs t) = [''target'', ''value''] \<and> component_id t = component_id s"
proof -
  from Setting_init_bound [OF assms] obtain b where
    b: "bind_params [(''target'', None), (''value'', None)] as kw = Inr b"
    and k: "kwargs t = b" and c: "component_id t = component_id s" by blast
  from bind_params_keys [OF b] k c show ?thesis by simp
qed

text \<open>
  C7, as the spec words it: an element renders as \<^verbatim>\<open><symbol> <key=value>, ...\<close>, a blank
  after the symbol. The code joins the symbol and the items alike by \<^verbatim>\<open>', '\<close>, so a
  comma follows the symbol: the two renderings of the same Point differ.
\<close>

theorem C7_spec_format_counterexample:
  "encode example_env example_point = ''*, x=1, y=2, frequency=3, skip=False, adjust=False'' \<and>
   spec_encode example_env example_point = ''* x=1, y=2, frequency=3, skip=False, adjust=False''"
  by code_simp

lemma bind_params_positional:
  "length as = length ps \<Longrightarrow> bind_params ps as [] = Inr (zip (map fst ps) as)"
proof (induction ps arbitrary: as)
  case Nil
  then show ?case by simp
next
  case (Cons pd ps)
  obtain p d where pd: "pd = (p, d)" by (cases pd)
  from Cons.prems obtain a rest where as: "as = a # rest" and len: "length rest = length ps"
    by (cases as) auto
  from Cons.IH [OF len] show ?case by (simp add: pd as)
qed

text \<open>
  C7 (amended). \<^verbatim>\<open>encode\<close> renders the class symbol followed, for each entry of
  \<^verbatim>\<open>kwargs\<close> in order whose key is not \<^verbatim>\<open>id\<close> and whose value is an int, str, bool or
  float, by \<^verbatim>\<open>', '\<close> and \<^verbatim>\<open>key=value\<close>; nothing else. A Label's encoding is that,
  prefixed by a newline. After a successful construction \<^verbatim>\<open>kwargs\<close> is exactly the
  binding of the call's arguments to the constructor's parameters, in definition order;
  arguments given by position are bound as they are.
\<close>

theorem C7_encode_format:
  "encode ev c =
     component_id c @
     concat (map (\<lambda>kv. '', '' @ fst kv @ ''='' @ py_str (repr_float ev) (str_obj ev) (snd kv))
               (filter (\<lambda>kv. fst kv \<noteq> ''id'' \<and> is_primitive (snd kv)) (kwargs c))) \<and>
   Label_encode ev l = CHR 0x0A # encode ev l \<and>
   (fst (construct ev w el as kw) = el' \<and> snd (construct ev w el as kw) = None \<longrightarrow>
      (case el' of
         PointE p \<Rightarrow> component_id p = ''*'' \<and>
           bind_params [(''x'', None), (''y'', None), (''frequency'', Some (VInt 1)),
             (''skip'', Some (VStr ''False'')), (''adjust'', Some (VStr ''False''))] as kw
             = Inr (kwargs p) \<and>
           map fst (kwargs p) = [''x'', ''y'', ''frequency'', ''skip'', ''adjust'']
       | LabelE l \<Rightarrow> component_id l = ''@'' \<and>
           bind_params [(''label'', None)] as kw = Inr (kwargs l) \<and>
           map fst (kwargs l) = [''label'']
       | JumpE j \<Rightarrow> component_id j = ''>'' \<and>
           bind_params [(''label'', None), (''frequency'', Some (VInt 1)),
             (''skip'', Some (VStr ''False''))] as kw = Inr (kwargs j) \<and>
           map fst (kwargs j) = [''label'', ''frequency'', ''skip'']
       | SettingE s \<Rightarrow> component_id s = ''$'' \<and>
           bind_params [(''target'', None), (''value'', None)] as kw = Inr (kwargs s) \<and>
           map fst (kwargs s) = [''target'', ''value''])) \<and>
   (length vs = length ps \<longrightarrow> bind_params ps vs [] = Inr (zip (map fst ps) vs))"
proof -
  have enc: "encode ev c =
     component_id c @
     concat (map (\<lambda>kv. '', '' @ fst kv @ ''='' @ py_str (repr_float ev) (str_obj ev) (snd kv))
               (filter (\<lambda>kv. fst kv \<noteq> ''id'' \<and> is_primitive (snd kv)) (kwargs c)))"
    by (simp add: encode_def encode_loop_filter py_join_Cons comp_def)
  have lab: "Label_encode ev l = CHR 0x0A # encode ev l" by (simp add: Label_encode_def)
  have pos: "length vs = length ps \<longrightarrow> bind_params ps vs [] = Inr (zip (map fst ps) vs)"
    using bind_params_positional by blast
  have ord: "fst (construct ev w el as kw) = el' \<and> snd (construct ev w el as kw) = None \<longrightarrow>
      (case el' of
         PointE p \<Rightarrow> component_id p = ''*'' \<and>
           bind_params [(''x'', None), (''y'', None), (''frequency'', Some (VInt 1)),
             (''skip'', Some (VStr ''False'')), (''adjust'', Some (VStr ''False''))] as kw
             = Inr (kwargs p) \<and>
           map fst (kwargs p) = [''x'', ''y'', ''frequency'', ''skip'', ''adjust'']
       | LabelE l \<Rightarrow> component_id l = ''@'' \<and>
           bind_params [(''label'', None)] as kw = Inr (kwargs l) \<and>
           map fst (kwargs l) = [''label'']
       | JumpE j \<Rightarrow> component_id j = ''>'' \<and>
           bind_params [(''label'', None), (''frequency'', Some (VInt 1)),
             (''skip'', Some (VStr ''False''))] as kw = Inr (kwargs j) \<and>
           map fst (kwargs j) = [''label'', ''frequency'', ''skip'']
       | SettingE s \<Rightarrow> component_id s = ''$'' \<and>
           bind_params [(''target'', None), (''value'', None)] as kw = Inr (kwargs s) \<and>
           map fst (kwargs s) = [''target'', ''value''])"
  proof (cases el)
    case (PointE p0)
    show ?thesis
    proof (intro impI, elim conjE)
      assume f: "fst (construct ev w el as kw) = el'" and s: "snd (construct ev w el as kw) = None"
      let ?r = "Point_init ev w fresh_point as kw"
      from s have "?r = (fst ?r, None)" by (simp add: PointE tag_def prod_eq_iff)
      from Point_init_bound [OF this] Point_init_kwargs [OF this]
      have "component_id (fst ?r) = ''*'' \<and>
            bind_params [(''x'', None), (''y'', None), (''frequency'', Some (VInt 1)),
              (''skip'', Some (VStr ''False'')), (''adjust'', Some (VStr ''False''))] as kw
              = Inr (kwargs (fst ?r)) \<and>
            map fst (kwargs (fst ?r)) = [''x'', ''y'', ''frequency'', ''skip'', ''adjust'']"
        by (auto simp: fresh_point_def)
      moreover from f have "el' = PointE (fst ?r)" by (simp add: PointE tag_def)
      ultimately show "case el' of
         PointE p \<Rightarrow> component_id p = ''*'' \<and>
           bind_params [(''x'', None), (''y'', None), (''frequency'', Some (VInt 1)),
             (''skip'', Some (VStr ''False'')), (''adjust'', Some (VStr ''False''))] as kw
             = Inr (kwargs p) \<and>
           map fst (kwargs p) = [''x'', ''y'', ''frequency'', ''skip'', ''adjust'']
       | LabelE l \<Rightarrow> component_id l = ''@'' \<and>
           bind_params [(''label'', None)] as kw = Inr (kwargs l) \<and>
           map fst (kwargs l) = [''label'']
       | JumpE j \<Rightarrow> component_id j = ''>'' \<and>
           bind_params [(''label'', None), (''frequency'', Some (VInt 1)),
             (''skip'', Some (VStr ''False''))] as kw = Inr (kwargs j) \<and>
           map fst (kwargs j) = [''label'', ''frequency'', ''skip'']
       | SettingE s \<Rightarrow> component_id s = ''$'' \<and>
           bind_params [(''target'', None), (''value'', None)] as kw = Inr (kwargs s) \<and>
           map fst (kwargs s) = [''target'', ''value'']"
        by (simp only: element.case)
    qed
  next
    case (LabelE l0)
    show ?thesis
    proof (intro impI, elim conjE)
      assume f: "fst (construct ev w el as kw) = el'" and s: "snd (construct ev w el as kw) = None"
      let ?r = "Label_init ev w fresh_label as kw"
      from s have "?r = (fst ?r, None)" by (simp add: LabelE tag_def prod_eq_iff)
      from Label_init_bound [OF this] Label_init_kwargs [OF this]
      have "component_id (fst ?r) = ''@'' \<and>
            bind_params [(''label'', None)] as kw = Inr (kwargs (fst ?r)) \<and>
            map fst (kwargs (fst ?r)) = [''label'']"
        by (auto simp: fresh_label_def)
      moreover from f have "el' = LabelE (fst ?r)" by (simp add: LabelE tag_def)
      ultimately show "case el' of
         PointE p \<Rightarrow> component_id p = ''*'' \<and>
           bind_params [(''x'', None), (''y'', None), (''frequency'', Some (VInt 1)),
             (''skip'', Some (VStr ''False'')), (''adjust'', Some (VStr ''False''))] as kw
             = Inr (kwargs p) \<and>
           map fst (kwargs p) = [''x'', ''y'', ''frequency'', ''skip'', ''adjust'']
       | LabelE l \<Rightarrow> component_id l = ''@'' \<and>
           bind_params [(''label'', None)] as kw = Inr (kwargs l) \<and>
           map fst (kwargs l) = [''label'']
       | JumpE j \<Rightarrow> component_id j = ''>'' \<and>
           bind_params [(''label'', None), (''frequency'', Some (VInt 1)),
             (''skip'', Some (VStr ''False''))] as kw = Inr (kwargs j) \<and>
           map fst (kwargs j) = [''label'', ''frequency'', ''skip'']
       | SettingE s \<Rightarrow> component_id s = ''$'' \<and>
           bind_params [(''target'', None), (''value'', None)] as kw = Inr (kwargs s) \<and>
           map fst (kwargs s) = [''target'', ''value'']"
        by (simp only: element.case)
    qed
  next
    case (JumpE j0)
    show ?thesis
    proof (intro impI, elim conjE)
      assume f: "fst (construct ev w el as kw) = el'" and s: "snd (construct ev w el as kw) = None"
      let ?r = "Jump_init ev w fresh_jump as kw"
      from s have "?r = (fst ?r, None)" by (simp add: JumpE tag_def prod_eq_iff)
      from Jump_init_bound [OF this] Jump_init_kwargs [OF this]
      have "component_id (fst ?r) = ''>'' \<and>
            bind_params [(''label'', None), (''frequency'', Some (VInt 1)),
              (''skip'', Some (VStr ''False''))] as kw = Inr (kwargs (fst ?r)) \<and>
            map fst (kwargs (fst ?r)) = [''label'', ''frequency'', ''skip'']"
        by (auto simp: fresh_jump_def)
      moreover from f have "el' = JumpE (fst ?r)" by (simp add: JumpE tag_def)
      ultimately show "case el' of
         PointE p \<Rightarrow> component_id p = ''*'' \<and>
           bind_params [(''x'', None), (''y'', None), (''frequency'', Some (VInt 1)),
             (''skip'', Some (VStr ''False'')), (''adjust'', Some (VStr ''False''))] as kw
             = Inr (kwargs p) \<and>
           map fst (kwargs p) = [''x'', ''y'', ''frequency'', ''skip'', ''adjust'']
       | LabelE l \<Rightarrow> component_id l = ''@'' \<and>
           bind_params [(''label'', None)] as kw = Inr (kwargs l) \<and>
           map fst (kwargs l) = [''label'']
       | JumpE j \<Rightarrow> component_id j = ''>'' \<and>
           bind_params [(''label'', None), (''frequency'', Some (VInt 1)),
             (''skip'', Some (VStr ''False''))] as kw = Inr (kwargs j) \<and>
           map fst (kwargs j) = [''label'', ''frequency'', ''skip'']
       | SettingE s \<Rightarrow> component_id s = ''$'' \<and>
           bind_params [(''target'', None), (''value'', None)] as kw = Inr (kwargs s) \<and>
           map fst (kwargs s) = [''target'', ''value'']"
        by (simp only: element.case)
    qed
  next
    case (SettingE s0)
    show ?thesis
    proof (intro impI, elim conjE)
      assume f: "fst (construct ev w el as kw) = el'" and s: "snd (construct ev w el as kw) = None"
      let ?r = "Setting_init ev w fresh_setting as kw"
      from s have "?r = (fst ?r, None)" by (simp add: SettingE tag_def prod_eq_iff)
      from Setting_init_bound [OF this] Setting_init_kwargs [OF this]
      have "component_id (fst ?r) = ''$'' \<and>
            bind_params [(''target'', None), (''value'', None)] as kw = Inr (kwargs (fst ?r)) \<and>
            map fst (kwargs (fst ?r)) = [''target'', ''value'']"
        by (auto simp: fresh_setting_def)
      moreover from f have "el' = SettingE (fst ?r)" by (simp add: SettingE tag_def)
      ultimately show "case el' of
         PointE p \<Rightarrow> component_id p = ''*'' \<and>
           bind_params [(''x'', None), (''y'', None), (''frequency'', Some (VInt 1)),
             (''skip'', Some (VStr ''False'')), (''adjust'', Some (VStr ''False''))] as kw
             = Inr (kwargs p) \<and>
           map fst (kwargs p) = [''x'', ''y'', ''frequency'', ''skip'', ''adjust'']
       | LabelE l \<Rightarrow> component_id l = ''@'' \<and>
           bind_params [(''label'', None)] as kw = Inr (kwargs l) \<and>
           map fst (kwargs l) = [''label'']
       | JumpE j \<Rightarrow> component_id j = ''>'' \<and>
           bind_params [(''label'', None), (''frequency'', Some (VInt 1)),
             (''skip'', Some (VStr ''False''))] as kw = Inr (kwargs j) \<and>
           map fst (kwargs j) = [''label'', ''frequency'', ''skip'']
       | SettingE s \<Rightarrow> component_id s = ''$'' \<and>
           bind_params [(''target'', None), (''value'', None)] as kw = Inr (kwargs s) \<and>
           map fst (kwargs s) = [''target'', ''value'']"
        by (simp only: element.case)
    qed
  qed
  from enc lab ord pos show ?thesis by (intro conjI)
qed

theorem C7_encode_format_witness:
  "snd (construct example_env example_world (PointE example_point)
          [VInt 1, VStr ''0.5''] [(''adjust'', VBool True)]) = None \<and>
   (case fst (construct example_env example_world (PointE example_point)
                [VInt 1, VStr ''0.5''] [(''adjust'', VBool True)]) of
      PointE p \<Rightarrow>
        kwargs p = [(''x'', VInt 1), (''y'', VStr ''0.5''), (''frequency'', VInt 1),
                    (''skip'', VStr ''False''), (''adjust'', VBool True)] \<and>
        encode example_env p = ''*, x=1, y=0.5, frequency=1, skip=False, adjust=True''
    | LabelE l \<Rightarrow> False
    | JumpE j \<Rightarrow> False
    | SettingE s \<Rightarrow> False) \<and>
   (case fst (construct example_env example_world (LabelE fresh_label) [VStr ''loop''] []) of
      PointE p \<Rightarrow> False
    | LabelE l \<Rightarrow> kwargs l = [(''label'', VStr ''loop'')] \<and>
                  Label_encode example_env l = CHR 0x0A # ''@, label=loop''
    | JumpE j \<Rightarrow> False
    | SettingE s \<Rightarrow> False) \<and>
   length [VInt 7, VFloat (1/2)] = length [(''x'', None :: pyval option), (''y'', None)] \<and>
   bind_params [(''x'', None), (''y'', None)] [VInt 7, VFloat (1/2)] []
     = Inr [(''x'', VInt 7), (''y'', VFloat (1/2))]"
proof -
  let ?as = "[VInt 1, VStr ''0.5'']" and ?kw = "[(''adjust'', VBool True)]"
  let ?el = "construct example_env example_world (PointE example_point) ?as ?kw"
  let ?lb = "construct example_env example_world (LabelE fresh_label) [VStr ''loop''] []"
  have ok: "snd ?el = None" by code_simp
  obtain p where p: "fst ?el = PointE p" by (simp add: tag_def)
  obtain l where l: "fst ?lb = LabelE l" by (simp add: tag_def)
  have okl: "snd ?lb = None" by code_simp
  have b: "bind_params [(''x'', None), (''y'', None), (''frequency'', Some (VInt 1)),
             (''skip'', Some (VStr ''False'')), (''adjust'', Some (VStr ''False''))] ?as ?kw
           = Inr [(''x'', VInt 1), (''y'', VStr ''0.5''), (''frequency'', VInt 1),
                  (''skip'', VStr ''False''), (''adjust'', VBool True)]"
    by code_simp
  have bl: "bind_params [(''label'', None)] [VStr ''loop''] [] = Inr [(''label'', VStr ''loop'')]"
    by code_simp
  have "case fst ?el of
         PointE p \<Rightarrow> component_id p = ''*'' \<and>
           bind_params [(''x'', None), (''y'', None), (''frequency'', Some (VInt 1)),
             (''skip'', Some (VStr ''False'')), (''adjust'', Some (VStr ''False''))] ?as ?kw
             = Inr (kwargs p) \<and>
           map fst (kwargs p) = [''x'', ''y'', ''frequency'', ''skip'', ''adjust'']
       | LabelE l \<Rightarrow> component_id l = ''@'' \<and>
           bind_params [(''label'', None)] ?as ?kw = Inr (kwargs l) \<and>
           map fst (kwargs l) = [''label'']
       | JumpE j \<Rightarrow> component_id j = ''>'' \<and>
           bind_params [(''label'', None), (''frequency'', Some (VInt 1)),
             (''skip'', Some (VStr ''False''))] ?as ?kw = Inr (kwargs j) \<and>
           map fst (kwargs j) = [''label'', ''frequency'', ''skip'']
       | SettingE s \<Rightarrow> component_id s = ''$'' \<and>
           bind_params [(''target'', None), (''value'', None)] ?as ?kw = Inr (kwargs s) \<and>
           map fst (kwargs s) = [''target'', ''value'']"
    by (rule C7_encode_format [of example_env _ _ example_world "PointE example_point",
          THEN conjunct2, THEN conjunct2, THEN conjunct1, THEN mp])
       (intro conjI refl ok)
  then have pid: "component_id p = ''*''"
    and pk: "kwargs p = [(''x'', VInt 1), (''y'', VStr ''0.5''), (''frequency'', VInt 1),
                         (''skip'', VStr ''False''), (''adjust'', VBool True)]"
    unfolding p element.case b by simp_all
  have "case fst ?lb of
         PointE p \<Rightarrow> component_id p = ''*'' \<and>
           bind_params [(''x'', None), (''y'', None), (''frequency'', Some (VInt 1)),
             (''skip'', Some (VStr ''False'')), (''adjust'', Some (VStr ''False''))]
             [VStr ''loop''] [] = Inr (kwargs p) \<and>
           map fst (kwargs p) = [''x'', ''y'', ''frequency'', ''skip'', ''adjust'']
       | LabelE l \<Rightarrow> component_id l = ''@'' \<and>
           bind_params [(''label'', None)] [VStr ''loop''] [] = Inr (kwargs l) \<and>
           map fst (kwargs l) = [''label'']
       | JumpE j \<Rightarrow> component_id j = ''>'' \<and>
           bind_params [(''label'', None), (''frequency'', Some (VInt 1)),
             (''skip'', Some (VStr ''False''))] [VStr ''loop''] [] = Inr (kwargs j) \<and>
           map fst (kwargs j) = [''label'', ''frequency'', ''skip'']
       | SettingE s \<Rightarrow> component_id s = ''$'' \<and>
           bind_params [(''target'', None), (''value'', None)] [VStr ''loop''] []
             = Inr (kwargs s) \<and>
           map fst (kwargs s) = [''target'', ''value'']"
    by (rule C7_encode_format [of example_env _ _ example_world "LabelE fresh_label",
          THEN conjunct2, THEN conjunct2, THEN conjunct1, THEN mp])
       (intro conjI refl okl)
  then have lid: "component_id l = ''@''" and lk: "kwargs l = [(''label'', VStr ''loop'')]"
    unfolding l element.case bl by simp_all
  have rp: "''*'' @
     concat (map (\<lambda>kv. '', '' @ fst kv @ ''='' @
                     py_str (repr_float example_env) (str_obj example_env) (snd kv))
               (filter (\<lambda>kv. fst kv \<noteq> ''id'' \<and> is_primitive (snd kv))
                  [(''x'', VInt 1), (''y'', VStr ''0.5''), (''frequency'', VInt 1),
                   (''skip'', VStr ''False''), (''adjust'', VBool True)]))
     = ''*, x=1, y=0.5, frequency=1, skip=False, adjust=True''"
    by code_simp
  have ep: "encode example_env p = ''*, x=1, y=0.5, frequency=1, skip=False, adjust=True''"
    using C7_encode_format [THEN conjunct1, of example_env p] rp by (simp only: pid pk)
  have rl: "''@'' @
     concat (map (\<lambda>kv. '', '' @ fst kv @ ''='' @
                     py_str (repr_float example_env) (str_obj example_env) (snd kv))
               (filter (\<lambda>kv. fst kv \<noteq> ''id'' \<and> is_primitive (snd kv))
                  [(''label'', VStr ''loop'')]))
     = ''@, label=loop''"
    by code_simp
  have el: "encode example_env l = ''@, label=loop''"
    using C7_encode_format [THEN conjunct1, of example_env l] rl by (simp only: lid lk)
  have ll: "Label_encode example_env l = CHR 0x0A # ''@, label=loop''"
    using C7_encode_format [THEN conjunct2, THEN conjunct1, of example_env l] el by (simp only:)
  have len: "length [VInt 7, VFloat (1/2)] = length [(''x'', None :: pyval option), (''y'', None)]"
    by simp
  have pos: "bind_params [(''x'', None), (''y'', None)] [VInt 7, VFloat (1/2)] []
     = Inr [(''x'', VInt 7), (''y'', VFloat (1/2))]"
    using C7_encode_format [THEN conjunct2, THEN conjunct2, THEN conjunct2, THEN mp, OF len]
    by simp
  from ok p pk ep l lk ll len pos show ?thesis by (simp only: element.case simp_thms)
qed

section \<open>Properties of the SkillRotation hold\<close>

lemma rand_float_range:
  assumes r: "rounding fl" and s: "fl start = start" and lt: "start < endv"
    and u0: "0 \<le> u" and u1: "u < 1" and ab: "adds_back fl start endv"
  shows "\<exists>d. rand_float fl start endv u = Inr d \<and> start \<le> d \<and> d \<le> endv"
proof -
  from r have mono: "\<And>a b. a \<le> b \<Longrightarrow> fl a \<le> fl b" and idem: "\<And>a. fl (fl a) = fl a"
    and z: "fl 0 = 0"
    by (auto simp: rounding_def)
  define w where "w = fl (endv - start)"
  define p where "p = fl (w * u)"
  have w0: "0 \<le> w" using mono [of 0 "endv - start"] lt z by (simp add: w_def)
  have flw: "fl w = w" by (simp add: w_def idem)
  have "0 \<le> w * u" using w0 u0 by simp
  then have p0: "0 \<le> p" using mono [of 0 "w * u"] z by (simp add: p_def)
  have "w * u \<le> w * 1" using w0 u1 by (intro mult_left_mono) simp_all
  then have pw: "p \<le> w" using mono [of "w * u" w] flw by (simp add: p_def)
  have lo: "start \<le> fl (p + start)" using mono [of start "p + start"] p0 s by simp
  have "fl (p + start) \<le> fl (w + start)" using mono [of "p + start" "w + start"] pw by simp
  moreover have "fl (w + start) \<le> endv" using ab by (simp add: adds_back_def w_def)
  ultimately have hi: "fl (p + start) \<le> endv" by linarith
  have "rand_float fl start endv u = Inr (fl (p + start))"
    using lt by (simp add: rand_float_def w_def p_def)
  with lo hi show ?thesis by blast
qed

lemma phase_long:
  assumes "fl 0.05 < 1" and "1 \<le> m"
  shows "main_attack_phase fl m u =
     (case rand_float fl 1 (min 3 m) u of Inl e \<Rightarrow> Inl e | Inr d \<Rightarrow> Inr (Some d))"
  using assms by (simp add: main_attack_phase_def)

lemma phase_mid:
  assumes "fl 0.05 < fl 0.2" and "fl 0.2 < m" and "m < 1"
  shows "main_attack_phase fl m u =
     (case rand_float fl (fl 0.2) m u of Inl e \<Rightarrow> Inl e | Inr d \<Rightarrow> Inr (Some d))"
  using assms by (simp add: main_attack_phase_def)

lemma phase_short:
  assumes "fl 0.05 < m" and "m \<le> fl 0.2" and "fl 0.2 < 1"
  shows "main_attack_phase fl m u =
     (case rand_float fl (fl 0.05) m u of Inl e \<Rightarrow> Inl e | Inr d \<Rightarrow> Inr (Some d))"
  using assms by (simp add: main_attack_phase_def)

lemma rounding_grid: "rounding round_to_grid"
proof -
  have mono: "round_to_grid a \<le> round_to_grid b" if "a \<le> b" for a b
  proof -
    from that have "a * 1024 + 1/2 \<le> b * 1024 + 1/2" by simp
    then have "\<lfloor>a * 1024 + 1/2\<rfloor> \<le> \<lfloor>b * 1024 + 1/2\<rfloor>" by (rule floor_mono)
    then show ?thesis by (simp add: round_to_grid_def divide_right_mono)
  qed
  have idem: "round_to_grid (round_to_grid a) = round_to_grid a" for a
  proof -
    define k where "k = \<lfloor>a * 1024 + 1/2\<rfloor>"
    have "\<lfloor>real_of_int k + 1/2\<rfloor> = k" by linarith
    then show ?thesis by (simp add: round_to_grid_def k_def [symmetric])
  qed
  have c: "round_to_grid 0 = 0" "round_to_grid 1 = 1"
    "round_to_grid 0.05 < round_to_grid 0.2" "round_to_grid 0.2 < round_to_grid 0.3"
    "round_to_grid 0.3 < 1"
    by (simp_all add: round_to_grid_def)
  from mono idem c show ?thesis unfolding rounding_def by blast
qed

text \<open>
  C8, as the spec words it: the hold is drawn from \<open>[0.05, remaining]\<close> when less than
  0.2 s remain, so it never extends past \<^verbatim>\<open>end_time\<close>. The caller floors \<^verbatim>\<open>max_sec\<close> at
  0.2: with 0.1 s remaining and the draw 0.9 the hold is 0.185 s in exact arithmetic
  (and 95/512 s on the grid), past the budget.
\<close>

theorem C8_hold_overshoots_counterexample:
  "attack_hold id (1/10) (9/10) = Inr (Some (37/200)) \<and> (37/200 :: real) > 1/10 \<and>
   attack_hold round_to_grid (1/10) (9/10) = Inr (Some (95/512)) \<and> (95/512 :: real) > 1/10"
  by (simp add: attack_hold_def main_attack_phase_def rand_float_def round_to_grid_def)

text \<open>
  C8 (amended). For every draw \<open>u\<close> in \<open>[0, 1)\<close>, with rounded arithmetic whose
  subtract-and-add-back does not exceed the upper end of the interval drawn from, the
  main-attack hold of the loop of \<^verbatim>\<open>SkillRotation.main\<close> lies in
  \<open>[1, min(3, remaining)]\<close> when more than 1 s remains and in \<open>[0.2, remaining]\<close> when
  between 0.2 s and 1 s remain, so it stays within the budget there; when at most 0.2 s
  remain it lies in \<open>[0.05, 0.2]\<close>, whatever the budget. The holds of the waiting loop
  (\<^verbatim>\<open>max_sec=0.3\<close>) lie in \<open>[0.2, 0.3]\<close>, whatever the budget.
\<close>

theorem C8_hold_bounds:
  assumes r: "rounding fl" and u0: "0 \<le> u" and u1: "u < 1"
    and ab1: "1 < remaining \<longrightarrow> adds_back fl 1 (min 3 remaining)"
    and ab2: "fl 0.2 < remaining \<and> remaining < 1 \<longrightarrow> adds_back fl (fl 0.2) remaining"
    and ab3: "adds_back fl (fl 0.05) (fl 0.2)"
    and ab4: "adds_back fl (fl 0.2) (fl 0.3)"
  shows "(1 < remaining \<longrightarrow>
            (\<exists>d. attack_hold fl remaining u = Inr (Some d) \<and> 1 \<le> d \<and> d \<le> min 3 remaining)) \<and>
         (fl 0.2 < remaining \<and> remaining < 1 \<longrightarrow>
            (\<exists>d. attack_hold fl remaining u = Inr (Some d) \<and> fl 0.2 \<le> d \<and> d \<le> remaining)) \<and>
         (remaining \<le> fl 0.2 \<longrightarrow>
            (\<exists>d. attack_hold fl remaining u = Inr (Some d) \<and> fl 0.05 \<le> d \<and> d \<le> fl 0.2)) \<and>
         (\<exists>d. main_attack_phase fl (fl 0.3) u = Inr (Some d) \<and> fl 0.2 \<le> d \<and> d \<le> fl 0.3)"
proof -
  define c005 where "c005 = fl 0.05"
  define c02 where "c02 = fl 0.2"
  define c03 where "c03 = fl 0.3"
  from r have idem: "\<And>a. fl (fl a) = fl a" and one: "fl 1 = 1"
    and o1: "c005 < c02" and o2: "c02 < c03" and o3: "c03 < 1"
    by (auto simp: rounding_def c005_def c02_def c03_def)
  have f02: "fl c02 = c02" and f005: "fl c005 = c005"
    by (simp_all add: c02_def c005_def idem)
  have long: "\<exists>d. attack_hold fl remaining u = Inr (Some d) \<and> 1 \<le> d \<and> d \<le> min 3 remaining"
    if rem: "1 < remaining"
  proof -
    define m where "m = min 5 (max c02 remaining)"
    have m1: "1 \<le> m" using rem o2 o3 by (simp add: m_def)
    have m3: "min 3 m = min 3 remaining" using rem o2 o3 by (simp add: m_def)
    have lt: "(1::real) < min 3 remaining" using rem by simp
    from ab1 rem have ab: "adds_back fl 1 (min 3 remaining)" by simp
    from rand_float_range [OF r one lt u0 u1 ab] obtain d where
      d: "rand_float fl 1 (min 3 remaining) u = Inr d" "1 \<le> d" "d \<le> min 3 remaining" by blast
    have small: "fl 0.05 < 1" using o1 o2 o3 by (simp add: c005_def)
    have "attack_hold fl remaining u = main_attack_phase fl m u"
      by (simp add: attack_hold_def m_def c02_def)
    also have "\<dots> = Inr (Some d)"
      unfolding phase_long [of fl m u, OF small m1] m3 using d(1) by simp
    finally show ?thesis using d by blast
  qed
  have mid: "\<exists>d. attack_hold fl remaining u = Inr (Some d) \<and> c02 \<le> d \<and> d \<le> remaining"
    if rem: "c02 < remaining \<and> remaining < 1"
  proof -
    from rem have lt: "c02 < remaining" and lt1: "remaining < 1" by simp_all
    have ms: "min 5 (max c02 remaining) = remaining" using rem by simp
    from ab2 rem have ab: "adds_back fl c02 remaining" by (simp add: c02_def)
    from rand_float_range [OF r f02 lt u0 u1 ab] obtain d where
      d: "rand_float fl c02 remaining u = Inr d" "c02 \<le> d" "d \<le> remaining" by blast
    have a1: "fl 0.05 < fl 0.2" using o1 by (simp add: c005_def c02_def)
    have a2: "fl 0.2 < remaining" using lt by (simp add: c02_def)
    have "attack_hold fl remaining u = main_attack_phase fl remaining u"
      using ms by (simp add: attack_hold_def c02_def)
    also have "\<dots> = Inr (Some d)"
      unfolding phase_mid [of fl remaining u, OF a1 a2 lt1] using d(1) by (simp add: c02_def)
    finally show ?thesis using d by blast
  qed
  have short: "\<exists>d. attack_hold fl remaining u = Inr (Some d) \<and> c005 \<le> d \<and> d \<le> c02"
    if rem: "remaining \<le> c02"
  proof -
    have ms: "min 5 (max c02 remaining) = c02" using rem o2 o3 by simp
    from ab3 have ab: "adds_back fl c005 c02" by (simp add: c005_def c02_def)
    from rand_float_range [OF r f005 o1 u0 u1 ab] obtain d where
      d: "rand_float fl c005 c02 u = Inr d" "c005 \<le> d" "d \<le> c02" by blast
    have a1: "fl 0.05 < c02" using o1 by (simp add: c005_def)
    have a2: "c02 \<le> fl 0.2" by (simp add: c02_def)
    have a3: "fl 0.2 < 1" using o2 o3 by (simp add: c02_def)
    have "attack_hold fl remaining u = main_attack_phase fl c02 u"
      using ms by (simp add: attack_hold_def c02_def)
    also have "\<dots> = Inr (Some d)"
      unfolding phase_short [of fl c02 u, OF a1 a2 a3] using d(1) by (simp add: c005_def)
    finally show ?thesis using d by blast
  qed
  have waiting: "\<exists>d. main_attack_phase fl c03 u = Inr (Some d) \<and> c02 \<le> d \<and> d \<le> c03"
  proof -
    from ab4 have ab: "adds_back fl c02 c03" by (simp add: c02_def c03_def)
    from rand_float_range [OF r f02 o2 u0 u1 ab] obtain d where
      d: "rand_float fl c02 c03 u = Inr d" "c02 \<le> d" "d \<le> c03" by blast
    have a1: "fl 0.05 < fl 0.2" using o1 by (simp add: c005_def c02_def)
    have a2: "fl 0.2 < c03" using o2 by (simp add: c02_def)
    have "main_attack_phase fl c03 u = Inr (Some d)"
      unfolding phase_mid [of fl c03 u, OF a1 a2 o3] using d(1) by (simp add: c02_def)
    with d show ?thesis by blast
  qed
  from long mid short waiting show ?thesis
    unfolding c005_def c02_def c03_def by blast
qed

theorem C8_hold_bounds_witness:
  "rounding round_to_grid \<and> (0::real) \<le> 1023/1024 \<and> (1023/1024::real) < 1 \<and>
   (1::real) < 2 \<and> adds_back round_to_grid 1 (min 3 2) \<and>
   round_to_grid 0.2 < 1/2 \<and> (1/2::real) < 1 \<and>
   adds_back round_to_grid (round_to_grid 0.2) (1/2) \<and>
   (1/8::real) \<le> round_to_grid 0.2 \<and>
   adds_back round_to_grid (round_to_grid 0.05) (round_to_grid 0.2) \<and>
   adds_back round_to_grid (round_to_grid 0.2) (round_to_grid 0.3) \<and>
   (\<exists>d. attack_hold round_to_grid 2 (1023/1024) = Inr (Some d) \<and> 1 \<le> d \<and> d \<le> min 3 2) \<and>
   (\<exists>d. attack_hold round_to_grid (1/2) (1023/1024) = Inr (Some d) \<and>
        round_to_grid 0.2 \<le> d \<and> d \<le> 1/2) \<and>
   (\<exists>d. attack_hold round_to_grid (1/8) (1023/1024) = Inr (Some d) \<and>
        round_to_grid 0.05 \<le> d \<and> d \<le> round_to_grid 0.2) \<and>
   (\<exists>d. main_attack_phase round_to_grid (round_to_grid 0.3) (1023/1024) = Inr (Some d) \<and>
        round_to_grid 0.2 \<le> d \<and> d \<le> round_to_grid 0.3)"
proof -
  note r = rounding_grid
  have u0: "(0::real) \<le> 1023/1024" and u1: "(1023/1024::real) < 1" by simp_all
  have g2: "(1::real) < 2" and gh: "round_to_grid 0.2 < 1/2" "(1/2::real) < 1"
    and ge: "(1/8::real) \<le> round_to_grid 0.2"
    by (simp_all add: round_to_grid_def)
  have b1: "adds_back round_to_grid 1 (min 3 2)"
    and b2: "adds_back round_to_grid (round_to_grid 0.2) (1/2)"
    and b3: "adds_back round_to_grid (round_to_grid 0.05) (round_to_grid 0.2)"
    and b4: "adds_back round_to_grid (round_to_grid 0.2) (round_to_grid 0.3)"
    by (simp_all add: adds_back_def round_to_grid_def)
  have i2: "1 < (2::real) \<longrightarrow> adds_back round_to_grid 1 (min 3 2)" using b1 by simp
  have j2: "round_to_grid 0.2 < (2::real) \<and> (2::real) < 1
              \<longrightarrow> adds_back round_to_grid (round_to_grid 0.2) 2" by simp
  have ih: "1 < (1/2::real) \<longrightarrow> adds_back round_to_grid 1 (min 3 (1/2))" by simp
  have jh: "round_to_grid 0.2 < (1/2::real) \<and> (1/2::real) < 1
              \<longrightarrow> adds_back round_to_grid (round_to_grid 0.2) (1/2)" using b2 by simp
  have ie: "1 < (1/8::real) \<longrightarrow> adds_back round_to_grid 1 (min 3 (1/8))" by simp
  have je: "round_to_grid 0.2 < (1/8::real) \<and> (1/8::real) < 1
              \<longrightarrow> adds_back round_to_grid (round_to_grid 0.2) (1/8)" using ge by simp
  note t2 = C8_hold_bounds [OF r u0 u1 i2 j2 b3 b4]
  note th = C8_hold_bounds [OF r u0 u1 ih jh b3 b4]
  note te = C8_hold_bounds [OF r u0 u1 ie je b3 b4]
  have c1: "\<exists>d. attack_hold round_to_grid 2 (1023/1024) = Inr (Some d) \<and> 1 \<le> d \<and> d \<le> min 3 2"
    by (rule t2 [THEN conjunct1, THEN mp]) (rule g2)
  have c2: "\<exists>d. attack_hold round_to_grid (1/2) (1023/1024) = Inr (Some d) \<and>
        round_to_grid 0.2 \<le> d \<and> d \<le> 1/2"
    by (rule th [THEN conjunct2, THEN conjunct1, THEN mp]) (intro conjI gh)
  have c3: "\<exists>d. attack_hold round_to_grid (1/8) (1023/1024) = Inr (Some d) \<and>
        round_to_grid 0.05 \<le> d \<and> d \<le> round_to_grid 0.2"
    by (rule te [THEN conjunct2, THEN conjunct2, THEN conjunct1, THEN mp]) (rule ge)
  have c4: "\<exists>d. main_attack_phase round_to_grid (round_to_grid 0.3) (1023/1024) = Inr (Some d) \<and>
        round_to_grid 0.2 \<le> d \<and> d \<le> round_to_grid 0.3"
    by (rule t2 [THEN conjunct2, THEN conjunct2, THEN conjunct2])
  from r u0 u1 g2 b1 gh b2 ge b3 b4 c1 c2 c3 c4 show ?thesis by (intro conjI)
qed

text \<open>
  At exactly 1 s remaining the bounds of the draw coincide and the assertion of
  \<^verbatim>\<open>rand_float\<close> fails, whatever the rounding.
\<close>

lemma attack_hold_at_one:
  assumes "rounding fl"
  shows "attack_hold fl 1 u = Inl AssertionError"
proof -
  from assms have "fl 0.05 < 1" and "fl 0.2 < 1" by (auto simp: rounding_def)
  then show ?thesis by (simp add: attack_hold_def main_attack_phase_def rand_float_def)
qed

section \<open>Properties of the alert\<close>

lemma wait_for_key_None: "wait_for_key polls = None \<longleftrightarrow> True \<notin> set polls"
  by (induction polls) auto

text \<open>
  C6, as the spec words it: upon acknowledgement \<^verbatim>\<open>_alert\<close> restores
  \<^verbatim>\<open>enabled = true\<close>. The code sets \<^verbatim>\<open>config.listener.enabled\<close> again and leaves
  \<^verbatim>\<open>config.enabled\<close> false: after the key is seen at the third poll the routine is still
  disabled, the listener is on and the alert is stopped.
\<close>

theorem C6_enabled_not_restored_counterexample:
  "map_option (\<lambda>s. (enabled (snd s), listener_enabled (snd s), playing (fst s)))
     (alert ''siren'' (3/4) [False, False, True] (example_mixer, example_world))
   = Some (False, True, False)"
  by (simp add: alert_def alert_start_def example_world_def example_mixer_def)

text \<open>
  C6 (amended). \<^verbatim>\<open>_alert\<close> first clears \<^verbatim>\<open>config.enabled\<close> and
  \<^verbatim>\<open>config.listener.enabled\<close> and starts the alert looping; it then stays in its polling
  loop exactly as long as the Start/stop key has not been seen pressed; when it returns,
  the key was seen, the alert is stopped and \<^verbatim>\<open>config.listener.enabled\<close> is true again,
  while \<^verbatim>\<open>config.enabled\<close> is still false. It never touches the cursor
  (\<^verbatim>\<open>config.routine.index\<close>).
\<close>

theorem C6_alert_blocks_until_acknowledged:
  "enabled (snd (alert_start name vol s)) = False \<and>
   listener_enabled (snd (alert_start name vol s)) = False \<and>
   playing (fst (alert_start name vol s)) = True \<and>
   loops (fst (alert_start name vol s)) = - 1 \<and>
   loaded (fst (alert_start name vol s)) = Some (get_alert_path name) \<and>
   routine_index (snd (alert_start name vol s)) = routine_index (snd s) \<and>
   (alert name vol polls s = None \<longleftrightarrow> True \<notin> set polls) \<and>
   (\<forall>s'. alert name vol polls s = Some s' \<longrightarrow>
      True \<in> set polls \<and> playing (fst s') = False \<and> listener_enabled (snd s') = True \<and>
      enabled (snd s') = False \<and> routine_index (snd s') = routine_index (snd s))"
proof -
  have blocked: "alert name vol polls s = None \<longleftrightarrow> True \<notin> set polls"
  proof (cases "wait_for_key polls")
    case None
    then have "alert name vol polls s = None" by (simp add: alert_def Let_def)
    with None wait_for_key_None [of polls] show ?thesis by simp
  next
    case (Some n)
    then have "alert name vol polls s \<noteq> None" by (simp add: alert_def Let_def)
    moreover from Some wait_for_key_None [of polls] have "True \<in> set polls" by simp
    ultimately show ?thesis by simp
  qed
  have ret: "\<forall>s'. alert name vol polls s = Some s' \<longrightarrow>
      True \<in> set polls \<and> playing (fst s') = False \<and> listener_enabled (snd s') = True \<and>
      enabled (snd s') = False \<and> routine_index (snd s') = routine_index (snd s)"
  proof (cases "wait_for_key polls")
    case None
    then have "alert name vol polls s = None" by (simp add: alert_def Let_def)
    then show ?thesis by simp
  next
    case (Some n)
    from Some wait_for_key_None [of polls] have p: "True \<in> set polls" by simp
    from Some have "alert name vol polls s =
        Some (fst (alert_start name vol s)\<lparr>playing := False\<rparr>,
              snd (alert_start name vol s)\<lparr>listener_enabled := True\<rparr>)"
      by (simp add: alert_def Let_def)
    with p show ?thesis by (auto simp: alert_start_def)
  qed
  have start: "enabled (snd (alert_start name vol s)) = False \<and>
   listener_enabled (snd (alert_start name vol s)) = False \<and>
   playing (fst (alert_start name vol s)) = True \<and>
   loops (fst (alert_start name vol s)) = - 1 \<and>
   loaded (fst (alert_start name vol s)) = Some (get_alert_path name) \<and>
   routine_index (snd (alert_start name vol s)) = routine_index (snd s)"
    by (simp add: alert_start_def)
  from start blocked ret show ?thesis by (intro conjI) (erule conjunct1 | erule conjunct2 | assumption | blast)+
qed

theorem C6_alert_blocks_until_acknowledged_witness:
  "alert ''siren'' (3/4) [False, False] (example_mixer, example_world) = None \<and>
   True \<notin> set [False, False] \<and>
   alert ''siren'' (3/4) [False, True] (example_mixer, example_world)
     = Some (example_mixer\<lparr>loaded := Some [''assets'', ''alerts'', ''siren.mp3''],
               volume := 3/4, playing := False, loops := - 1\<rparr>,
             example_world\<lparr>enabled := False, listener_enabled := True\<rparr>) \<and>
   True \<in> set [False, True]"
proof -
  have n: "True \<notin> set [False, False]" by simp
  have y: "True \<in> set [False, True]" by simp
  have a: "alert ''siren'' (3/4) [False, False] (example_mixer, example_world) = None"
    using C6_alert_blocks_until_acknowledged
      [of "''siren''" "3/4" "(example_mixer, example_world)" "[False, False]",
        THEN conjunct2, THEN conjunct2, THEN conjunct2, THEN conjunct2, THEN conjunct2,
        THEN conjunct2, THEN conjunct1] n
    by (rule iffD2)
  have b: "alert ''siren'' (3/4) [False, True] (example_mixer, example_world)
     = Some (example_mixer\<lparr>loaded := Some [''assets'', ''alerts'', ''siren.mp3''],
               volume := 3/4, playing := False, loops := - 1\<rparr>,
             example_world\<lparr>enabled := False, listener_enabled := True\<rparr>)"
    by (simp add: alert_def alert_start_def get_alert_path_def)
  from a n b y show ?thesis by (intro conjI)
qed

section \<open>Properties of the rune attempts\<close>

lemma solve_round_fails:
  assumes "round_fails r"
  shows "solve_round win r (b, False)
           = Inr (b\<lparr>events := events b @ round_presses r\<rparr>, False)"
proof -
  from assms obtain f sol where f: "frame r = Some f" and sol: "response r = Solution sol"
    and nf: "length sol \<noteq> 4 \<or> rune_buff r = []"
    by (cases "response r") (auto simp: round_fails_def)
  show ?thesis
  proof (cases "length sol = 4")
    case False
    then show ?thesis
      by (auto simp: solve_round_def round_presses_def predict_from_frame_def f sol)
  next
    case True
    with nf have rb: "rune_buff r = []" by simp
    from True have ne: "sol \<noteq> []" by auto
    show ?thesis using True ne rb
      by (simp add: solve_round_def round_presses_def predict_from_frame_def sol f)
  qed
qed

lemma after_rounds_failed:
  "after_rounds False fr b =
     b\<lparr>attempts := attempts b + 1,
       rune_active := rune_active b \<and> attempts b + 1 \<le> 9,
       events := events b @ (if fr \<noteq> None then [SaveFailedDetection] else []) @
                 (if (attempts b + 1) mod 3 = 0 then [EnterCashShop, ExitCashShop] else []) @
                 (if attempts b + 1 > 20 then [TaskKill ''MapleStory.exe'', TaskKillSelf] else [])\<rparr>"
  by (cases "fr = None"; cases "(attempts b + 1) mod 3 = 0"; cases "attempts b + 1 > 9";
      cases "attempts b + 1 > 20") (simp_all add: after_rounds_def Let_def)

text \<open>
  When the solver raises in the first round (no frame yet, or a failed request), the
  exception leaves \<^verbatim>\<open>_solve_rune\<close>: the attempt is not counted.
\<close>

lemma solve_rune_solver_raises:
  assumes "enabled w" and "approach_rune ev b w = Inr w3"
    and "predict_from_frame (frame r1) (response r1) = Inl e"
  shows "solve_rune ev win (r1, r2, r3) b w = Inl e"
  using assms by (simp add: solve_rune_def run_if_enabled_def solve_rune_body_def solve_round_def)

text \<open>
  C3, as the spec words it: when \<^verbatim>\<open>attempts\<close> reaches 9 the flag \<^verbatim>\<open>rune_active\<close> is
  force-cleared. The code tests \<^verbatim>\<open>attempts > 9\<close>: a failed attempt that brings the
  counter from 8 to 9 runs the cash-shop recovery (9 is a multiple of 3) and leaves
  \<^verbatim>\<open>rune_active\<close> set.
\<close>

theorem C3_attempts_nine_counterexample:
  "map_sum id (\<lambda>s. (attempts (fst s), rune_active (fst s), events (fst s)))
     (solve_rune example_env (0, 0) (no_answer, wrong_answer, no_answer) example_bot example_world)
     = Inr (9, True,
            [Press ''y'', Press ''up'', Press ''down'', Press ''left'', Press ''right'',
             SaveFailedDetection, EnterCashShop, ExitCashShop]) \<and>
   attempts example_bot = 8 \<and> rune_active example_bot = True"
  by code_simp

text \<open>
  C3 (amended). With the routine enabled and the approach commands succeeding, an
  attempt whose three rounds all fail (in each, a frame was captured, the solver
  answered, and the answer has not four symbols or the buff icon does not show)
  increments \<^verbatim>\<open>attempts\<close> by one; it runs the recovery (enter, then exit the cash
  shop) exactly when the new count is a multiple of 3; it clears \<^verbatim>\<open>rune_active\<close>
  exactly when the new count exceeds 9 (so at 10, not at 9); and it kills the game
  process and its own exactly when the new count exceeds 20 (so at 21). Before that it
  presses the interact key and each round's four arrows, and saves the last frame.
\<close>

theorem C3_failed_attempt:
  assumes en: "enabled w"
    and ap: "approach_rune ev b w = Inr w3"
    and f1: "round_fails r1" and f2: "round_fails r2" and f3: "round_fails r3"
  shows "solve_rune ev win (r1, r2, r3) b w =
           Inr (b\<lparr>attempts := attempts b + 1,
                  rune_active := rune_active b \<and> attempts b + 1 \<le> 9,
                  events := events b @ [Press (interact_key b)] @
                    round_presses r1 @ round_presses r2 @ round_presses r3 @
                    [SaveFailedDetection] @
                    (if (attempts b + 1) mod 3 = 0 then [EnterCashShop, ExitCashShop] else []) @
                    (if attempts b + 1 > 20 then [TaskKill ''MapleStory.exe'', TaskKillSelf]
                     else [])\<rparr>,
                w3)"
proof -
  let ?b0 = "b\<lparr>events := events b @ [Press (interact_key b)]\<rparr>"
  let ?b1 = "?b0\<lparr>events := events ?b0 @ round_presses r1\<rparr>"
  let ?b2 = "?b1\<lparr>events := events ?b1 @ round_presses r2\<rparr>"
  let ?b3 = "?b2\<lparr>events := events ?b2 @ round_presses r3\<rparr>"
  have s1: "solve_round win r1 (?b0, False) = Inr (?b1, False)"
    by (rule solve_round_fails [OF f1])
  have s2: "solve_round win r2 (?b1, False) = Inr (?b2, False)"
    by (rule solve_round_fails [OF f2])
  have s3: "solve_round win r3 (?b2, False) = Inr (?b3, False)"
    by (rule solve_round_fails [OF f3])
  have fr: "frame r3 \<noteq> None" using f3 by (simp add: round_fails_def)
  have body: "solve_rune_body ev win (r1, r2, r3) b w
                = Inr (after_rounds False (frame r3) ?b3, w3)"
    unfolding solve_rune_body_def by (simp only: ap s1 s2 s3 sum.case fst_conv snd_conv)
  have "solve_rune ev win (r1, r2, r3) b w = Inr (after_rounds False (frame r3) ?b3, w3)"
    using en body by (simp add: solve_rune_def run_if_enabled_def)
  also have "after_rounds False (frame r3) ?b3 =
     b\<lparr>attempts := attempts b + 1,
        rune_active := rune_active b \<and> attempts b + 1 \<le> 9,
        events := events b @ [Press (interact_key b)] @
          round_presses r1 @ round_presses r2 @ round_presses r3 @
          [SaveFailedDetection] @
          (if (attempts b + 1) mod 3 = 0 then [EnterCashShop, ExitCashShop] else []) @
          (if attempts b + 1 > 20 then [TaskKill ''MapleStory.exe'', TaskKillSelf]
           else [])\<rparr>"
    unfolding after_rounds_failed using fr by simp
  finally show ?thesis .
qed

theorem C3_failed_attempt_witness:
  "enabled example_world \<and>
   approach_rune example_env (example_bot\<lparr>attempts := 20\<rparr>) example_world = Inr example_world \<and>
   round_fails no_answer \<and> round_fails wrong_answer \<and>
   solve_rune example_env (0, 0) (no_answer, wrong_answer, no_answer)
       (example_bot\<lparr>attempts := 20\<rparr>) example_world
     = Inr (example_bot\<lparr>attempts := 21, rune_active := False,
              events := [Press ''y'', Press ''up'', Press ''down'', Press ''left'', Press ''right'',
                         SaveFailedDetection, EnterCashShop, ExitCashShop,
                         TaskKill ''MapleStory.exe'', TaskKillSelf]\<rparr>,
            example_world)"
proof -
  have en: "enabled example_world" by (simp add: example_world_def)
  have ap: "approach_rune example_env (example_bot\<lparr>attempts := 20\<rparr>) example_world
              = Inr example_world"
    by (simp add: approach_rune_def example_env_def)
  have f1: "round_fails no_answer" by (simp add: round_fails_def no_answer_def)
  have f2: "round_fails wrong_answer" by (simp add: round_fails_def wrong_answer_def)
  have p1: "round_presses no_answer = []" by (simp add: round_presses_def no_answer_def)
  have p2: "round_presses wrong_answer
              = [Press ''up'', Press ''down'', Press ''left'', Press ''right'']"
    by (simp add: round_presses_def wrong_answer_def)
  have b: "attempts (example_bot\<lparr>attempts := 20\<rparr>) = 20"
    "events (example_bot\<lparr>attempts := 20\<rparr>) = []"
    "interact_key (example_bot\<lparr>attempts := 20\<rparr>) = ''y''"
    by (simp_all add: example_bot_def)
  have r: "solve_rune example_env (0, 0) (no_answer, wrong_answer, no_answer)
       (example_bot\<lparr>attempts := 20\<rparr>) example_world
     = Inr (example_bot\<lparr>attempts := 21, rune_active := False,
              events := [Press ''y'', Press ''up'', Press ''down'', Press ''left'', Press ''right'',
                         SaveFailedDetection, EnterCashShop, ExitCashShop,
                         TaskKill ''MapleStory.exe'', TaskKillSelf]\<rparr>,
            example_world)"
    unfolding C3_failed_attempt [OF en ap f1 f2 f1] p1 p2 b by simp
  from en ap f1 f2 r show ?thesis by (intro conjI)
qed

end
